theory Spec2Isabelle
  imports Main "HOL-Library.Sublist"
begin

section \<open>Data model of src/lib/ecosystems.ts\<close>

text \<open>
  The interfaces of the source become records, with the field names of the source.
  Where several interfaces share a field name, or a function of the source uses it as
  a variable, the field is prefixed: \<open>identity_type\<close>, \<open>issue_id\<close>, \<open>err_error\<close>,
  \<open>err_path\<close>, \<open>err_scanResult\<close>, \<open>res_path\<close>, \<open>res_scanResult\<close>, \<open>req_scanResult\<close>,
  \<open>req_projectName\<close>, \<open>req_policy\<close>, \<open>req_method\<close>, \<open>plugin_scanResults\<close>, \<open>opt_path\<close>.
  \<open>id\<close> and \<open>image\<close>, which are constants of HOL, are written \<open>id'\<close> and \<open>image'\<close>.
  A value of type \<open>any\<close> is a JSON value. An optional field \<open>f?: T\<close> is a
  \<open>T option\<close>, \<open>None\<close> being \<open>undefined\<close>.
\<close>

datatype json =
  JNull | JBool bool | JNum int | JStr string | JArr "json list" | JObj "(string \<times> json) list"

record GitTarget =
  remoteUrl :: string
  branch :: string

record ContainerTarget =
  image' :: string

datatype Target = Git GitTarget | Container ContainerTarget

record Identity =
  identity_type :: string
  targetFile :: "string option"
  args :: "(string \<times> string) list option"

record Facts =
  type :: string
  data :: json

record ScanResult =
  identity :: Identity
  facts :: "Facts list"
  name :: "string option"
  policy :: "string option"
  target :: "Target option"

record FixInfo =
  nearestFixedInVersion :: "string option"

record Issue =
  pkgName :: string
  pkgVersion :: "string option"
  issueId :: string
  fixInfo :: FixInfo

record IssueData =
  issue_id :: string
  severity :: string
  title :: string

record TestResult =
  issues :: "Issue list"
  issuesData :: "(string \<times> IssueData) list"
  depGraphData :: json

text \<open>
  A ScanResult is a JavaScript object: \<open>monitorDependencies\<close> assigns to its
  \<open>facts\<close> field while the caller's map and the returned entries hold the same
  object. Objects are therefore references into a store.
\<close>

type_synonym ref = nat

type_synonym store = "ref \<Rightarrow> ScanResult"

record EcosystemMonitorError =
  err_error :: string
  err_path :: string
  err_scanResult :: ref

record MonitorDependenciesResponse =
  ok :: bool
  org :: string
  id' :: string
  isMonitored :: bool
  licensesPolicy :: json
  uri :: string
  trialStarted :: bool
  res_path :: string
  projectName :: string

record EcosystemMonitorResult = MonitorDependenciesResponse +
  res_scanResult :: ref

text \<open>
  \<open>MonitorDependenciesRequest\<close> holds a ScanResult object; what the remote service
  receives is the request with the object's content at the time of the call. The
  record is polymorphic in the scan result: a \<open>ref\<close> in the program, a
  \<open>ScanResult\<close> on the wire.
\<close>

record 'sr MonitorDependenciesRequest =
  req_scanResult :: 'sr
  req_projectName :: "string option"
  req_policy :: "string option"
  req_method :: "string option"


datatype Ecosystem = cpp | docker

text \<open>
  The fields of \<open>Options\<close> (declared in ./types) that this file reads or writes.
  \<open>'project-name'\<close> is written \<open>project_name\<close>.
\<close>

record Options =
  source :: "bool option"
  container :: "bool option"
  isDockerUser :: "bool option"
  project_name :: "string option"
  opt_path :: "string option"

subsection \<open>JavaScript truthiness\<close>

text \<open>
  \<open>if (x)\<close>, \<open>!x\<close> and \<open>x || y\<close> test truthiness: \<open>undefined\<close>, \<open>false\<close> and
  the empty string are falsy.
\<close>

definition truthy :: "bool option \<Rightarrow> bool" where
  "truthy b = (b = Some True)"

definition truthy_str :: "string option \<Rightarrow> bool" where
  "truthy_str s = (case s of None \<Rightarrow> False | Some v \<Rightarrow> v \<noteq> [])"

definition js_or :: "string option \<Rightarrow> string option \<Rightarrow> string option" where
  "js_or a b = (if truthy_str a then a else b)"

subsection \<open>Loops that a thrown error leaves\<close>

text \<open>
  A computation over a state \<open>'s\<close> yields \<open>(Inr v, s')\<close> when it returns \<open>v\<close> and
  \<open>(Inl m, s')\<close> when it throws an \<open>Error\<close> with message \<open>m\<close>; \<open>s'\<close> is the state
  at that moment. \<open>for_of body xs\<close> is the loop \<open>for (const x of xs) { body }\<close>: a
  throw in the body leaves the loop.
\<close>

fun for_of :: "('x \<Rightarrow> 's \<Rightarrow> (string + unit) \<times> 's) \<Rightarrow> 'x list \<Rightarrow> 's \<Rightarrow> (string + unit) \<times> 's" where
  "for_of body [] s = (Inr (), s)"
| "for_of body (x # xs) s =
     (case body x s of
        (Inl m, s') \<Rightarrow> (Inl m, s')
      | (Inr u, s') \<Rightarrow> for_of body xs s')"

section \<open>Ecosystem selection\<close>

definition getEcosystem :: "Options \<Rightarrow> Ecosystem option" where
  "getEcosystem options =
     (if truthy (source options) then Some cpp
      else if truthy (container options) \<and> \<not> truthy (isDockerUser options) then Some docker
      else None)"

section \<open>Collaborators outside this file\<close>

text \<open>
  \<open>config.API\<close>, \<open>config.PROJECT_NAME\<close>, \<open>isCI()\<close> and \<open>snyk.api\<close> are read from
  other modules; they are parameters of the model.
\<close>

record Env =
  config_API :: string
  config_PROJECT_NAME :: "string option"
  isCI :: bool
  snyk_api :: string

record Headers =
  x_is_ci :: bool
  authorization :: string

text \<open>The object handed to \<open>makeRequest\<close>; its \<open>method\<close> field is \<open>http_method\<close>.\<close>

record 'b payload =
  http_method :: string
  url :: string
  json :: bool
  headers :: Headers
  body :: 'b

text \<open>
  What \<open>makeRequest\<close> rejects with. The code reads \<open>error.code\<close> and
  \<open>error.message\<close>; \<open>code\<close> is \<open>None\<close> when the error carries no numeric code (a
  network failure), and then both comparisons of the source are false.
\<close>

record remote_error =
  code :: "int option"
  message :: string

text \<open>
  \<open>makeRequest\<close> is the remote service and the network: from their state \<open>'w\<close> and
  a payload it resolves with a response (\<open>Inr\<close>) or rejects (\<open>Inl\<close>), and moves to a
  new state.
\<close>

type_synonym ('w, 'q, 'p) remote = "'w \<Rightarrow> 'q payload \<Rightarrow> (remote_error + 'p) \<times> 'w"

text \<open>One call of \<open>makeRequest\<close>, as the run made it: for which path and scan result,
  with which payload, and how it ended.\<close>

record ('q, 'p) call =
  call_path :: string
  call_scanResult :: ref
  call_payload :: "'q payload"
  call_reply :: "remote_error + 'p"

datatype spinner_call = SpinnerStart string | SpinnerClearAll

text \<open>
  The state of a run of \<open>testDependencies\<close> or \<open>monitorDependencies\<close>: the local
  arrays \<open>results\<close> and \<open>errors\<close>, the calls of \<open>makeRequest\<close> made so far (a
  record of the run, not a variable of the source), the calls made to the progress
  indicator, the state of the remote side and the store of ScanResult objects.
\<close>

record ('w, 'r, 'e, 'q, 'p) state =
  results :: "'r list"
  errors :: "'e list"
  calls :: "('q, 'p) call list"
  spinner_calls :: "spinner_call list"
  world :: 'w
  heap :: store

text \<open>
  \<open>spinner(label)\<close> and \<open>spinner.clearAll()\<close> of ../lib/spinner act on the progress
  indicator, which is outside this file: the state keeps the calls made to it, in
  their order. The indicator has been cleared when no call of \<open>spinner\<close> follows the
  last call of \<open>clearAll\<close>.
\<close>

definition spinner :: "string \<Rightarrow> ('w, 'r, 'e, 'q, 'p) state \<Rightarrow> ('w, 'r, 'e, 'q, 'p) state" where
  "spinner label st = st\<lparr>spinner_calls := spinner_calls st @ [SpinnerStart label]\<rparr>"

definition clearAll :: "('w, 'r, 'e, 'q, 'p) state \<Rightarrow> ('w, 'r, 'e, 'q, 'p) state" where
  "clearAll st = st\<lparr>spinner_calls := spinner_calls st @ [SpinnerClearAll]\<rparr>"

text \<open>The test of lines 199 and 281: \<open>error.code >= 400 && error.code < 500\<close>.\<close>

definition fatal :: "remote_error \<Rightarrow> bool" where
  "fatal e = (case code e of None \<Rightarrow> False | Some c \<Rightarrow> 400 \<le> c \<and> c < 500)"

section \<open>Test submission\<close>

definition test_payload :: "Env \<Rightarrow> ScanResult \<Rightarrow> ScanResult payload" where
  "test_payload env scanResult =
     \<lparr>http_method = ''POST'',
      url = config_API env @ ''/test-dependencies'',
      json = True,
      headers = \<lparr>x_is_ci = isCI env, authorization = ''token '' @ snyk_api env\<rparr>,
      body = scanResult\<rparr>"

text \<open>The body of the inner loop of \<open>testDependencies\<close>, for one scan result.\<close>

definition testScanResult ::
  "('w, ScanResult, TestResult) remote \<Rightarrow> Env \<Rightarrow> string \<Rightarrow> ref \<Rightarrow>
   ('w, TestResult, string, ScanResult, TestResult) state \<Rightarrow>
   (string + unit) \<times> ('w, TestResult, string, ScanResult, TestResult) state" where
  "testScanResult makeRequest env path scanResult st =
     (let payload = test_payload env (heap st scanResult);
          (reply, w) = makeRequest (world st) payload;
          st1 = st\<lparr>world := w,
                   calls := calls st @ [\<lparr>call_path = path, call_scanResult = scanResult,
                                          call_payload = payload, call_reply = reply\<rparr>]\<rparr>
      in case reply of
           Inr response \<Rightarrow> (Inr (), st1\<lparr>results := results st1 @ [response]\<rparr>)
         | Inl error \<Rightarrow>
             if fatal error then (Inl (message error), st1)
             else (Inr (), st1\<lparr>errors := errors st1 @ [''Could not test dependencies in '' @ path]\<rparr>))"

text \<open>The body of the outer loop, for one entry of \<open>Object.entries(scans)\<close>.\<close>

definition testEntry ::
  "('w, ScanResult, TestResult) remote \<Rightarrow> Env \<Rightarrow> string \<times> ref list \<Rightarrow>
   ('w, TestResult, string, ScanResult, TestResult) state \<Rightarrow>
   (string + unit) \<times> ('w, TestResult, string, ScanResult, TestResult) state" where
  "testEntry makeRequest env entry st =
     (case entry of (path, scanResults) \<Rightarrow>
        for_of (testScanResult makeRequest env path) scanResults
          (spinner (''Testing dependencies in '' @ path) st))"

text \<open>
  \<open>testDependencies\<close>; \<open>scans\<close> is the list \<open>Object.entries(scans)\<close> of the source.
  The run starts with empty \<open>results\<close> and \<open>errors\<close>, and with no call made yet.
\<close>

definition testDependencies ::
  "('w, ScanResult, TestResult) remote \<Rightarrow> Env \<Rightarrow> (string \<times> ref list) list \<Rightarrow>
   ('w, TestResult, string, ScanResult, TestResult) state \<Rightarrow>
   (string + TestResult list \<times> string list) \<times> ('w, TestResult, string, ScanResult, TestResult) state" where
  "testDependencies makeRequest env scans st =
     (case for_of (testEntry makeRequest env) scans (st\<lparr>results := [], errors := [], calls := []\<rparr>) of
        (Inl m, st') \<Rightarrow> (Inl m, st')
      | (Inr u, st') \<Rightarrow> (Inr (results st', errors st'), clearAll st'))"

section \<open>Monitor submission\<close>

definition generateMonitorDependenciesRequest :: "Env \<Rightarrow> ref \<Rightarrow> Options \<Rightarrow> ref MonitorDependenciesRequest" where
  "generateMonitorDependenciesRequest env scanResult options =
     \<lparr>req_scanResult = scanResult,
      req_projectName = js_or (js_or (project_name options) (config_PROJECT_NAME env)) None,
      req_policy = None,
      req_method = Some ''cli''\<rparr>"

definition filterFacts :: "ScanResult \<Rightarrow> ScanResult" where
  "filterFacts s = s\<lparr>facts := filter (\<lambda>fact. type fact \<noteq> ''imageOsReleasePrettyName'') (facts s)\<rparr>"

text \<open>The request as it is sent: the ScanResult object's content at that moment.\<close>

definition on_wire :: "store \<Rightarrow> ref MonitorDependenciesRequest \<Rightarrow> ScanResult MonitorDependenciesRequest" where
  "on_wire h request =
     \<lparr>req_scanResult = h (req_scanResult request),
      req_projectName = req_projectName request,
      req_policy = req_policy request,
      req_method = req_method request\<rparr>"

definition monitor_payload :: "Env \<Rightarrow> 'b \<Rightarrow> 'b payload" where
  "monitor_payload env request =
     \<lparr>http_method = ''PUT'',
      url = config_API env @ ''/monitor-dependencies'',
      json = True,
      headers = \<lparr>x_is_ci = isCI env, authorization = ''token '' @ snyk_api env\<rparr>,
      body = request\<rparr>"

text \<open>\<open>{...response, path, scanResult}\<close>: the response's fields, then \<open>path\<close> and
  \<open>scanResult\<close> over them.\<close>

definition spread_result :: "MonitorDependenciesResponse \<Rightarrow> string \<Rightarrow> ref \<Rightarrow> EcosystemMonitorResult" where
  "spread_result response path scanResult =
     \<lparr>ok = ok response, org = org response, id' = id' response,
      isMonitored = isMonitored response, licensesPolicy = licensesPolicy response,
      uri = uri response, trialStarted = trialStarted response,
      res_path = path, projectName = projectName response, res_scanResult = scanResult\<rparr>"

type_synonym 'w monitor_state =
  "('w, EcosystemMonitorResult, EcosystemMonitorError, ScanResult MonitorDependenciesRequest,
    MonitorDependenciesResponse) state"

text \<open>The body of the inner loop of \<open>monitorDependencies\<close>, for one scan result.\<close>

definition monitorScanResult ::
  "('w, ScanResult MonitorDependenciesRequest, MonitorDependenciesResponse) remote \<Rightarrow> Env \<Rightarrow>
   Options \<Rightarrow> string \<Rightarrow> ref \<Rightarrow> 'w monitor_state \<Rightarrow> (string + unit) \<times> 'w monitor_state" where
  "monitorScanResult makeRequest env options path scanResult st =
     (let monitorDependenciesRequest = generateMonitorDependenciesRequest env scanResult options;
          r = req_scanResult monitorDependenciesRequest;
          h = (heap st)(r := filterFacts (heap st r));
          payload = monitor_payload env (on_wire h monitorDependenciesRequest);
          (reply, w) = makeRequest (world st) payload;
          st1 = st\<lparr>heap := h, world := w,
                   calls := calls st @ [\<lparr>call_path = path, call_scanResult = scanResult,
                                          call_payload = payload, call_reply = reply\<rparr>]\<rparr>
      in case reply of
           Inr response \<Rightarrow> (Inr (), st1\<lparr>results := results st1 @ [spread_result response path scanResult]\<rparr>)
         | Inl error \<Rightarrow>
             if fatal error then (Inl (message error), st1)
             else (Inr (), st1\<lparr>errors := errors st1 @
                     [\<lparr>err_error = ''Could not monitor dependencies in '' @ path,
                       err_path = path, err_scanResult = scanResult\<rparr>]\<rparr>))"

definition monitorEntry ::
  "('w, ScanResult MonitorDependenciesRequest, MonitorDependenciesResponse) remote \<Rightarrow> Env \<Rightarrow>
   Options \<Rightarrow> string \<times> ref list \<Rightarrow> 'w monitor_state \<Rightarrow> (string + unit) \<times> 'w monitor_state" where
  "monitorEntry makeRequest env options entry st =
     (case entry of (path, scanResults) \<Rightarrow>
        for_of (monitorScanResult makeRequest env options path) scanResults
          (spinner (''Monitoring dependencies in '' @ path) st))"

definition monitorDependencies ::
  "('w, ScanResult MonitorDependenciesRequest, MonitorDependenciesResponse) remote \<Rightarrow> Env \<Rightarrow>
   (string \<times> ref list) list \<Rightarrow> Options \<Rightarrow> 'w monitor_state \<Rightarrow>
   (string + EcosystemMonitorResult list \<times> EcosystemMonitorError list) \<times> 'w monitor_state" where
  "monitorDependencies makeRequest env scans options st =
     (case for_of (monitorEntry makeRequest env options) scans
             (st\<lparr>results := [], errors := [], calls := []\<rparr>) of
        (Inl m, st') \<Rightarrow> (Inl m, st')
      | (Inr u, st') \<Rightarrow> (Inr (results st', errors st'), clearAll st'))"

section \<open>The scan phase of testEcosystem and monitorEcosystem\<close>








section \<open>The result formatter\<close>

text \<open>
  \<open>GoodResult | BadResult\<close>, told apart by the field \<open>ok\<close>. The \<open>data\<close> of a
  BadResult is an error object of which the code reads \<open>userMessage\<close> and \<open>message\<close>;
  the code also allows for a BadResult with no \<open>data\<close>.
\<close>

record MonitorError =
  me_code :: int
  userMessage :: "string option"
  me_message :: string

datatype Result =
  GoodResult (good_data: string) (good_path: string) (good_projectName: "string option")
| BadResult (bad_data: "MonitorError option") (bad_path: string)

fun result_ok :: "Result \<Rightarrow> bool" where
  "result_ok (GoodResult d p n) = True"
| "result_ok (BadResult d p) = False"

text \<open>
  What \<open>getFormattedMonitorOutput\<close> calls in other modules, as parameters: the
  formatter of one monitor response, the count of extra projects (its third argument is
  the constant \<open>{}\<close>), the constructor of \<open>MonitorError\<close> and the two chalk styles.
\<close>

record Collaborators =
  formatMonitorOutput :: "string \<Rightarrow> EcosystemMonitorResult \<Rightarrow> Options \<Rightarrow> string \<Rightarrow> nat option \<Rightarrow> string"
  getExtraProjectCount :: "string \<Rightarrow> Options \<Rightarrow> nat option"
  new_MonitorError :: "int \<Rightarrow> EcosystemMonitorError \<Rightarrow> MonitorError"
  chalk_bold_red :: "string \<Rightarrow> string"
  chalk_bold_white :: "string \<Rightarrow> string"

definition SEPARATOR :: string where
  "SEPARATOR = [CHR 0x0A] @ ''-------------------------------------------------------'' @ [CHR 0x0A]"

text \<open>\<open>Array.prototype.join\<close> on an array of strings.\<close>

fun join_with :: "string \<Rightarrow> string list \<Rightarrow> string" where
  "join_with sep [] = []"
| "join_with sep [x] = x"
| "join_with sep (x # y # ys) = x @ sep @ join_with sep (y # ys)"

text \<open>The function mapped over \<open>results\<close> (lines 331 to 346).\<close>

definition render :: "Collaborators \<Rightarrow> Result \<Rightarrow> string" where
  "render c res =
     (case res of
        GoodResult d p n \<Rightarrow> d
      | BadResult d p \<Rightarrow>
          (let errorMessage =
             (case d of
                None \<Rightarrow> ''Unknown error occurred.''
              | Some e \<Rightarrow>
                  (case userMessage e of
                     None \<Rightarrow> me_message e
                   | Some m \<Rightarrow> if m \<noteq> [] then chalk_bold_red c m else me_message e))
           in chalk_bold_white c ([CHR 0x0A] @ ''Monitoring '' @ p @ ''...'' @ [CHR 0x0A, CHR 0x0A])
                @ errorMessage))"

definition good_entry :: "Collaborators \<Rightarrow> store \<Rightarrow> Options \<Rightarrow> EcosystemMonitorResult \<Rightarrow> Result" where
  "good_entry c h options monitorResult =
     (let monOutput =
            formatMonitorOutput c
              (identity_type (identity (h (res_scanResult monitorResult))))
              monitorResult options (projectName monitorResult)
              (getExtraProjectCount c (res_path monitorResult) options)
      in GoodResult monOutput (res_path monitorResult) (Some (id' monitorResult)))"

definition bad_entry :: "Collaborators \<Rightarrow> EcosystemMonitorError \<Rightarrow> Result" where
  "bad_entry c monitorError =
     BadResult (Some (new_MonitorError c 500 monitorError)) (err_path monitorError)"

text \<open>
  \<open>getFormattedMonitorOutput\<close>; its parameters \<open>results\<close> and \<open>errors\<close> are
  \<open>results0\<close> and \<open>errors0\<close> here. \<open>results\<close> is the caller's array, which the two
  loops push to: the second component of the value is that array after the call,
  whether the function returns the report (\<open>Inr\<close>) or throws it (\<open>Inl\<close>).
\<close>

definition getFormattedMonitorOutput ::
  "Collaborators \<Rightarrow> store \<Rightarrow> Result list \<Rightarrow> EcosystemMonitorResult list \<Rightarrow>
   EcosystemMonitorError list \<Rightarrow> Options \<Rightarrow> (string + string) \<times> Result list" where
  "getFormattedMonitorOutput c h results0 monitorResults errors0 options =
     (let results1 = fold (\<lambda>monitorResult rs. rs @ [good_entry c h options monitorResult])
                       monitorResults results0;
          results2 = fold (\<lambda>monitorError rs. rs @ [bad_entry c monitorError]) errors0 results1;
          outputString = join_with ([CHR 0x0A] @ SEPARATOR) (map (render c) results2)
      in (if list_all result_ok results2 then Inr outputString else Inl outputString, results2))"

section \<open>Reading a run\<close>

text \<open>
  The pairs (path, scan result) of \<open>scans\<close> in the order of the two nested loops, and
  how a call of \<open>makeRequest\<close> ended: it resolved, it was rejected with a code in
  [400, 500) (fatal), or it was rejected otherwise (soft).
\<close>

definition submissions :: "(string \<times> ref list) list \<Rightarrow> (string \<times> ref) list" where
  "submissions scans = concat (map (\<lambda>(path, scanResults). map (Pair path) scanResults) scans)"

definition submitted :: "('q, 'p) call \<Rightarrow> string \<times> ref" where
  "submitted c = (call_path c, call_scanResult c)"

definition ok_call :: "('q, 'p) call \<Rightarrow> bool" where
  "ok_call c = (case call_reply c of Inr r \<Rightarrow> True | Inl e \<Rightarrow> False)"

definition fatal_call :: "('q, 'p) call \<Rightarrow> bool" where
  "fatal_call c = (case call_reply c of Inr r \<Rightarrow> False | Inl e \<Rightarrow> fatal e)"

definition soft_call :: "('q, 'p) call \<Rightarrow> bool" where
  "soft_call c = (case call_reply c of Inr r \<Rightarrow> False | Inl e \<Rightarrow> \<not> fatal e)"

text \<open>
  A run that has not thrown has submitted the pairs \<open>ps\<close>, in this order, and no call
  was fatal. A run that has thrown the message \<open>m\<close> has submitted a beginning of
  \<open>ps\<close>, its last call was fatal with that message, and no call before it was.
\<close>

definition running :: "(string \<times> ref) list \<Rightarrow> ('w, 'r, 'e, 'q, 'p) state \<Rightarrow> bool" where
  "running ps st \<longleftrightarrow> map submitted (calls st) = ps \<and> (\<forall>c \<in> set (calls st). \<not> fatal_call c)"

definition aborted :: "(string \<times> ref) list \<Rightarrow> string \<Rightarrow> ('w, 'r, 'e, 'q, 'p) state \<Rightarrow> bool" where
  "aborted ps m st \<longleftrightarrow>
     calls st \<noteq> [] \<and> prefix (map submitted (calls st)) ps \<and>
     (\<forall>c \<in> set (butlast (calls st)). \<not> fatal_call c) \<and>
     (\<exists>e. call_reply (last (calls st)) = Inl e \<and> fatal e \<and> m = message e)"

text \<open>
  What a run of \<open>testDependencies\<close> has recorded, read off its calls: one result
  per call that resolved and one error string per soft rejection, each in the order of
  the calls.
\<close>

definition test_recorded :: "('w, TestResult, string, ScanResult, TestResult) state \<Rightarrow> bool" where
  "test_recorded st \<longleftrightarrow>
     results st = map (\<lambda>c. projr (call_reply c)) (filter ok_call (calls st)) \<and>
     errors st = map (\<lambda>c. ''Could not test dependencies in '' @ call_path c) (filter soft_call (calls st))"

text \<open>
  The same for \<open>monitorDependencies\<close>, with the store: an object is filtered once it
  has been submitted and is as in the initial store \<open>h0\<close> before, and every payload
  carried the filtered content of its object.
\<close>

definition monitor_recorded :: "Env \<Rightarrow> Options \<Rightarrow> store \<Rightarrow> 'w monitor_state \<Rightarrow> bool" where
  "monitor_recorded env options h0 st \<longleftrightarrow>
     results st = map (\<lambda>c. spread_result (projr (call_reply c)) (call_path c) (call_scanResult c))
                   (filter ok_call (calls st)) \<and>
     errors st = map (\<lambda>c. \<lparr>err_error = ''Could not monitor dependencies in '' @ call_path c,
                            err_path = call_path c, err_scanResult = call_scanResult c\<rparr>)
                   (filter soft_call (calls st)) \<and>
     (\<forall>r. heap st r = (if r \<in> call_scanResult ` set (calls st) then filterFacts (h0 r) else h0 r)) \<and>
     (\<forall>c \<in> set (calls st). call_payload c =
         monitor_payload env (on_wire (\<lambda>r. filterFacts (h0 r))
           (generateMonitorDependenciesRequest env (call_scanResult c) options)))"

text \<open>
  The calls of a run against the remote side: starting from the state \<open>w\<close>,
  \<open>makeRequest\<close> was handed the payload of each call in turn, gave the reply of the
  call, and is left in the state \<open>w'\<close>.
\<close>

fun exchanged :: "('w, 'q, 'p) remote \<Rightarrow> 'w \<Rightarrow> ('q, 'p) call list \<Rightarrow> 'w \<Rightarrow> bool" where
  "exchanged makeRequest w [] w' = (w' = w)"
| "exchanged makeRequest w (c # cs) w' =
     (fst (makeRequest w (call_payload c)) = call_reply c \<and>
      exchanged makeRequest (snd (makeRequest w (call_payload c))) cs w')"

section \<open>Example inputs\<close>

text \<open>
  Concrete inputs on which the theorems below are instantiated: a scan result with an
  OS-release fact and a dependency graph, a store in which every object has this
  content, and a remote side that answers from a prepared list of replies, one per
  call (and with a network error once the list is used up).
\<close>

definition os_fact :: Facts where
  "os_fact = \<lparr>type = ''imageOsReleasePrettyName'', data = JStr ''Alpine Linux v3.12''\<rparr>"

definition graph_fact :: Facts where
  "graph_fact = \<lparr>type = ''depGraph'', data = JObj []\<rparr>"

definition example_scan :: ScanResult where
  "example_scan =
     \<lparr>identity = \<lparr>identity_type = ''deb'', targetFile = None, args = None\<rparr>,
      facts = [os_fact, graph_fact], name = None, policy = None, target = None\<rparr>"

definition example_store :: store where
  "example_store r = example_scan"

definition example_env :: Env where
  "example_env =
     \<lparr>config_API = ''https://snyk.io/api/v1'', config_PROJECT_NAME = None, isCI = False,
      snyk_api = ''key''\<rparr>"

definition example_options :: Options where
  "example_options =
     \<lparr>source = None, container = Some True, isDockerUser = None, project_name = None,
      opt_path = None\<rparr>"

definition forbidden :: remote_error where
  "forbidden = \<lparr>code = Some 403, message = ''Forbidden''\<rparr>"

definition unavailable :: remote_error where
  "unavailable = \<lparr>code = Some 503, message = ''Service Unavailable''\<rparr>"

definition no_issues :: TestResult where
  "no_issues = \<lparr>issues = [], issuesData = [], depGraphData = JObj []\<rparr>"

definition monitored :: MonitorDependenciesResponse where
  "monitored =
     \<lparr>ok = True, org = ''my-org'', id' = ''project-1'', isMonitored = True, licensesPolicy = JNull,
      uri = ''https://snyk.io/org/my-org/project/project-1'', trialStarted = False,
      res_path = [], projectName = ''my-image''\<rparr>"

definition scripted :: "((remote_error + 'p) list, 'q, 'p) remote" where
  "scripted w pl =
     (case w of
        [] \<Rightarrow> (Inl \<lparr>code = None, message = ''socket hang up''\<rparr>, [])
      | reply # rest \<Rightarrow> (reply, rest))"

definition example_start :: "'w \<Rightarrow> ('w, 'r, 'e, 'q, 'p) state" where
  "example_start w =
     \<lparr>results = [], errors = [], calls = [], spinner_calls = [], world = w, heap = example_store\<rparr>"

definition example_scans :: "(string \<times> ref list) list" where
  "example_scans = [(''a'', [0, 1]), (''b'', [2])]"

definition test_run_403 ::
  "(string + TestResult list \<times> string list) \<times>
   ((remote_error + TestResult) list, TestResult, string, ScanResult, TestResult) state" where
  "test_run_403 =
     testDependencies scripted example_env example_scans
       (example_start [Inr no_issues, Inl forbidden, Inr no_issues])"

definition monitor_run_403 ::
  "(string + EcosystemMonitorResult list \<times> EcosystemMonitorError list) \<times>
   (remote_error + MonitorDependenciesResponse) list monitor_state" where
  "monitor_run_403 =
     monitorDependencies scripted example_env example_scans example_options
       (example_start [Inr monitored, Inl forbidden, Inr monitored])"

definition test_run_503 ::
  "(string + TestResult list \<times> string list) \<times>
   ((remote_error + TestResult) list, TestResult, string, ScanResult, TestResult) state" where
  "test_run_503 =
     testDependencies scripted example_env example_scans
       (example_start [Inr no_issues, Inl unavailable, Inr no_issues])"

definition monitor_run_503 ::
  "(string + EcosystemMonitorResult list \<times> EcosystemMonitorError list) \<times>
   (remote_error + MonitorDependenciesResponse) list monitor_state" where
  "monitor_run_503 =
     monitorDependencies scripted example_env example_scans example_options
       (example_start [Inr monitored, Inl unavailable, Inr monitored])"

definition source_options :: Options where
  "source_options =
     \<lparr>source = Some True, container = Some True, isDockerUser = Some True, project_name = None,
      opt_path = None\<rparr>"

definition desktop_options :: Options where
  "desktop_options =
     \<lparr>source = None, container = Some True, isDockerUser = Some True, project_name = None,
      opt_path = None\<rparr>"

definition named_options :: Options where
  "named_options = example_options\<lparr>project_name := Some ''my-project''\<rparr>"

definition empty_name_options :: Options where
  "empty_name_options = example_options\<lparr>project_name := Some []\<rparr>"

definition configured_env :: Env where
  "configured_env = example_env\<lparr>config_PROJECT_NAME := Some ''configured''\<rparr>"

definition example_collaborators :: Collaborators where
  "example_collaborators =
     \<lparr>formatMonitorOutput =
        (\<lambda>packageManager res options projectName foundProjectCount.
           ''Monitoring '' @ res_path res @ '' ('' @ projectName @ '')''),
      getExtraProjectCount = (\<lambda>root options. None),
      new_MonitorError =
        (\<lambda>errorCode monitorError.
           \<lparr>me_code = errorCode, userMessage = None,
            me_message = ''Server returned unexpected error for the monitor request. Status code: 500''\<rparr>),
      chalk_bold_red = (\<lambda>s. s),
      chalk_bold_white = (\<lambda>s. s)\<rparr>"

definition example_monitor_error :: EcosystemMonitorError where
  "example_monitor_error =
     \<lparr>err_error = ''Could not monitor dependencies in a'', err_path = ''a'', err_scanResult = 1\<rparr>"

definition formatted_ok :: "(string + string) \<times> Result list" where
  "formatted_ok =
     getFormattedMonitorOutput example_collaborators example_store []
       [spread_result monitored ''a'' 0, spread_result monitored ''b'' 2] [] example_options"

definition formatted_failed :: "(string + string) \<times> Result list" where
  "formatted_failed =
     getFormattedMonitorOutput example_collaborators example_store []
       [spread_result monitored ''a'' 0] [example_monitor_error] example_options"






definition test_run_lone_503 ::
  "(string + TestResult list \<times> string list) \<times>
   ((remote_error + TestResult) list, TestResult, string, ScanResult, TestResult) state" where
  "test_run_lone_503 =
     testDependencies scripted example_env [(''a'', [0])] (example_start [Inl unavailable])"

definition monitor_run_lone_503 ::
  "(string + EcosystemMonitorResult list \<times> EcosystemMonitorError list) \<times>
   (remote_error + MonitorDependenciesResponse) list monitor_state" where
  "monitor_run_lone_503 =
     monitorDependencies scripted example_env [(''a'', [0])] example_options
       (example_start [Inl unavailable])"

text \<open>
  A remote side that accepts every request and keeps the payloads it was handed, in
  their order.
\<close>

definition recording :: "('q payload list, 'q, MonitorDependenciesResponse) remote" where
  "recording w pl = (Inr monitored, w @ [pl])"

definition monitor_run_recorded ::
  "(string + EcosystemMonitorResult list \<times> EcosystemMonitorError list) \<times>
   ScanResult MonitorDependenciesRequest payload list monitor_state" where
  "monitor_run_recorded =
     monitorDependencies recording example_env example_scans example_options (example_start [])"

definition example_monitor_error_b :: EcosystemMonitorError where
  "example_monitor_error_b =
     \<lparr>err_error = ''Could not monitor dependencies in b'', err_path = ''b'', err_scanResult = 2\<rparr>"

definition formatted_mixed :: "(string + string) \<times> Result list" where
  "formatted_mixed =
     getFormattedMonitorOutput example_collaborators example_store
       [GoodResult ''Monitoring earlier (npm)'' ''earlier'' None]
       [spread_result monitored ''a'' 0, spread_result monitored ''b'' 2]
       [example_monitor_error, example_monitor_error_b] example_options"

section \<open>Properties of the loops\<close>

text \<open>
  A rule for \<open>for_of\<close>: an invariant \<open>I\<close>, indexed by the elements already
  handled, that every step keeps while it returns, and a condition \<open>E\<close> that holds
  when a step throws.
\<close>

lemma for_of_rule_gen:
  assumes step: "\<And>pre x post s o1 s1. xs = pre @ x # post \<Longrightarrow> I pre s \<Longrightarrow> f x s = (o1, s1) \<Longrightarrow>
                   (case o1 of Inr u \<Rightarrow> I (pre @ [x]) s1 | Inl m \<Rightarrow> E m s1)"
  shows "xs = pre @ ys \<Longrightarrow> I pre s \<Longrightarrow> for_of f ys s = (out, s') \<Longrightarrow>
         (case out of Inr u \<Rightarrow> I xs s' | Inl m \<Rightarrow> E m s')"
proof (induction ys arbitrary: pre s)
  case Nil
  then show ?case by auto
next
  case (Cons y ys)
  obtain o1 s1 where b: "f y s = (o1, s1)" by (cases "f y s")
  from step[OF Cons.prems(1) Cons.prems(2) b]
  have st: "case o1 of Inr u \<Rightarrow> I (pre @ [y]) s1 | Inl m \<Rightarrow> E m s1" .
  show ?case
  proof (cases o1)
    case (Inl m)
    with Cons.prems(3) b have "out = Inl m" "s' = s1" by auto
    with st Inl show ?thesis by simp
  next
    case (Inr u)
    with Cons.prems(3) b have r: "for_of f ys s1 = (out, s')" by simp
    from st Inr have i: "I (pre @ [y]) s1" by simp
    from Cons.prems(1) have e: "xs = (pre @ [y]) @ ys" by simp
    from Cons.IH[OF e i r] show ?thesis .
  qed
qed

lemma for_of_rule:
  assumes run: "for_of f xs s0 = (out, s')"
    and init: "I [] s0"
    and step: "\<And>pre x post s o1 s1. xs = pre @ x # post \<Longrightarrow> I pre s \<Longrightarrow> f x s = (o1, s1) \<Longrightarrow>
                   (case o1 of Inr u \<Rightarrow> I (pre @ [x]) s1 | Inl m \<Rightarrow> E m s1)"
  shows "case out of Inr u \<Rightarrow> I xs s' | Inl m \<Rightarrow> E m s'"
  using for_of_rule_gen[of xs I f E "[]" xs s0 out s', OF step _ init run] by simp

lemma submissions_append: "submissions (xs @ ys) = submissions xs @ submissions ys"
  by (simp add: submissions_def)

lemma submissions_Cons: "submissions ((p, srs) # ys) = map (Pair p) srs @ submissions ys"
  by (simp add: submissions_def)

lemma submissions_Nil: "submissions [] = []"
  by (simp add: submissions_def)

lemma testScanResult_step:
  assumes "testScanResult mk env p sr st = (o1, s1)" and "running ps st" and "test_recorded st"
  shows "test_recorded s1 \<and> heap s1 = heap st \<and> spinner_calls s1 = spinner_calls st \<and>
         (case o1 of Inr u \<Rightarrow> running (ps @ [(p, sr)]) s1
                   | Inl m \<Rightarrow> aborted (ps @ [(p, sr)]) m s1 \<and> map submitted (calls s1) = ps @ [(p, sr)])"
  using assms
  by (auto simp: testScanResult_def Let_def running_def aborted_def test_recorded_def
        submitted_def ok_call_def soft_call_def fatal_call_def
      split: prod.splits sum.splits if_splits)

lemma aborted_mono: "aborted ps m st \<Longrightarrow> prefix ps qs \<Longrightarrow> aborted qs m st"
  unfolding aborted_def using prefix_order.trans by blast

lemma testEntry_step:
  assumes run: "testEntry mk env (p, srs) st = (o1, s1)"
    and r: "running ps st" and t: "test_recorded st"
  shows "test_recorded s1 \<and> heap s1 = heap st \<and>
         (case o1 of Inr u \<Rightarrow> running (ps @ map (Pair p) srs) s1
                   | Inl m \<Rightarrow> aborted (ps @ map (Pair p) srs) m s1)"
proof -
  let ?s0 = "spinner (''Testing dependencies in '' @ p) st"
  let ?I = "\<lambda>pre s. running (ps @ map (Pair p) pre) s \<and> test_recorded s \<and> heap s = heap st"
  let ?E = "\<lambda>m s. aborted (ps @ map (Pair p) srs) m s \<and> test_recorded s \<and> heap s = heap st"
  from run have run': "for_of (testScanResult mk env p) srs ?s0 = (o1, s1)"
    by (simp add: testEntry_def)
  have init: "?I [] ?s0"
    using r t by (simp add: spinner_def running_def test_recorded_def)
  have "case o1 of Inr u \<Rightarrow> ?I srs s1 | Inl m \<Rightarrow> ?E m s1"
  proof (rule for_of_rule[OF run', where I = ?I and E = ?E, OF init])
    fix pre x post s o2 s2
    assume xs: "srs = pre @ x # post" and i: "?I pre s"
      and b: "testScanResult mk env p x s = (o2, s2)"
    from testScanResult_step[OF b, of "ps @ map (Pair p) pre"] i
    have st: "test_recorded s2 \<and> heap s2 = heap s \<and>
         (case o2 of Inr u \<Rightarrow> running ((ps @ map (Pair p) pre) @ [(p, x)]) s2
                   | Inl m \<Rightarrow> aborted ((ps @ map (Pair p) pre) @ [(p, x)]) m s2 \<and> map submitted (calls s2) = (ps @ map (Pair p) pre) @ [(p, x)])"
      by blast
    have pf: "prefix ((ps @ map (Pair p) pre) @ [(p, x)]) (ps @ map (Pair p) srs)"
      by (simp add: xs)
    show "case o2 of Inr u \<Rightarrow> ?I (pre @ [x]) s2 | Inl m \<Rightarrow> ?E m s2"
    proof (cases o2)
      case (Inl m)
      with st have "aborted ((ps @ map (Pair p) pre) @ [(p, x)]) m s2" by simp
      from aborted_mono[OF this pf] st i Inl show ?thesis by simp
    next
      case (Inr u)
      with st i show ?thesis by simp
    qed
  qed
  then show ?thesis by (cases o1) auto
qed

lemma test_loop:
  assumes run: "for_of (testEntry mk env) scans st = (out, st')"
    and r: "running [] st" and t: "test_recorded st"
  shows "test_recorded st' \<and> heap st' = heap st \<and>
         (case out of Inr u \<Rightarrow> running (submissions scans) st'
                    | Inl m \<Rightarrow> aborted (submissions scans) m st')"
proof -
  let ?I = "\<lambda>pre s. running (submissions pre) s \<and> test_recorded s \<and> heap s = heap st"
  let ?E = "\<lambda>m s. aborted (submissions scans) m s \<and> test_recorded s \<and> heap s = heap st"
  have init: "?I [] st" using r t by (simp add: submissions_Nil)
  have "case out of Inr u \<Rightarrow> ?I scans st' | Inl m \<Rightarrow> ?E m st'"
  proof (rule for_of_rule[OF run, where I = ?I and E = ?E, OF init])
    fix pre x post s o2 s2
    assume xs: "scans = pre @ x # post" and i: "?I pre s"
      and b: "testEntry mk env x s = (o2, s2)"
    obtain p srs where x: "x = (p, srs)" by (cases x)
    from testEntry_step[OF b[unfolded x], of "submissions pre"] i
    have st: "test_recorded s2 \<and> heap s2 = heap s \<and>
         (case o2 of Inr u \<Rightarrow> running (submissions pre @ map (Pair p) srs) s2
                   | Inl m \<Rightarrow> aborted (submissions pre @ map (Pair p) srs) m s2)"
      by blast
    have pf: "prefix (submissions pre @ map (Pair p) srs) (submissions scans)"
      by (simp add: xs x submissions_append submissions_Cons)
    show "case o2 of Inr u \<Rightarrow> ?I (pre @ [x]) s2 | Inl m \<Rightarrow> ?E m s2"
    proof (cases o2)
      case (Inl m)
      with st have "aborted (submissions pre @ map (Pair p) srs) m s2" by simp
      from aborted_mono[OF this pf] st i Inl show ?thesis by simp
    next
      case (Inr u)
      with st i show ?thesis
        by (simp add: x submissions_append submissions_Cons submissions_Nil)
    qed
  qed
  then show ?thesis by (cases out) auto
qed

lemma testDependencies_run:
  assumes run: "testDependencies mk env scans st = (out, st')"
  shows "test_recorded st' \<and> heap st' = heap st \<and>
         (case out of
            Inr v \<Rightarrow> v = (results st', errors st') \<and> running (submissions scans) st' \<and>
                     last (spinner_calls st') = SpinnerClearAll
          | Inl m \<Rightarrow> aborted (submissions scans) m st')"
proof -
  let ?s0 = "st\<lparr>results := [], errors := [], calls := []\<rparr>"
  obtain o1 s1 where l: "for_of (testEntry mk env) scans ?s0 = (o1, s1)"
    by (cases "for_of (testEntry mk env) scans ?s0")
  have "running [] ?s0" "test_recorded ?s0"
    by (simp_all add: running_def test_recorded_def)
  from test_loop[OF l this]
  have f: "test_recorded s1 \<and> heap s1 = heap ?s0 \<and>
         (case o1 of Inr u \<Rightarrow> running (submissions scans) s1
                    | Inl m \<Rightarrow> aborted (submissions scans) m s1)" .
  show ?thesis
  proof (cases o1)
    case (Inl m)
    with run l have "out = Inl m" "st' = s1" by (simp_all add: testDependencies_def)
    with f Inl show ?thesis by simp
  next
    case (Inr u)
    with run l have "out = Inr (results s1, errors s1)" "st' = clearAll s1"
      by (simp_all add: testDependencies_def)
    with f Inr show ?thesis
      by (simp add: clearAll_def running_def test_recorded_def)
  qed
qed

lemma filterFacts_idem: "filterFacts (filterFacts s) = filterFacts s"
  by (simp add: filterFacts_def)

lemma monitorScanResult_shape:
  assumes "monitorScanResult mk env options p sr st = (o1, s1)"
  obtains reply where
    "calls s1 = calls st @ [\<lparr>call_path = p, call_scanResult = sr,
        call_payload = monitor_payload env (on_wire ((heap st)(sr := filterFacts (heap st sr)))
           (generateMonitorDependenciesRequest env sr options)),
        call_reply = reply\<rparr>]"
    "heap s1 = (heap st)(sr := filterFacts (heap st sr))"
    "spinner_calls s1 = spinner_calls st"
    "results s1 = results st @ (case reply of Inr r \<Rightarrow> [spread_result r p sr] | Inl e \<Rightarrow> [])"
    "errors s1 = errors st @ (case reply of Inr r \<Rightarrow> [] | Inl e \<Rightarrow> if fatal e then [] else
        [\<lparr>err_error = ''Could not monitor dependencies in '' @ p, err_path = p, err_scanResult = sr\<rparr>])"
    "o1 = (case reply of Inr r \<Rightarrow> Inr () | Inl e \<Rightarrow> if fatal e then Inl (message e) else Inr ())"
proof -
  let ?h = "(heap st)(sr := filterFacts (heap st sr))"
  let ?pl = "monitor_payload env (on_wire ?h (generateMonitorDependenciesRequest env sr options))"
  obtain reply w where mk: "mk (world st) ?pl = (reply, w)" by (cases "mk (world st) ?pl")
  have rq: "req_scanResult (generateMonitorDependenciesRequest env sr options) = sr"
    by (simp add: generateMonitorDependenciesRequest_def)
  show ?thesis
  proof (rule that[of reply])
    show "calls s1 = calls st @ [\<lparr>call_path = p, call_scanResult = sr, call_payload = ?pl, call_reply = reply\<rparr>]"
      using assms mk by (auto simp: monitorScanResult_def Let_def rq split: sum.splits if_splits)
    show "heap s1 = ?h"
      using assms mk by (auto simp: monitorScanResult_def Let_def rq split: sum.splits if_splits)
    show "spinner_calls s1 = spinner_calls st"
      using assms mk by (auto simp: monitorScanResult_def Let_def rq split: sum.splits if_splits)
    show "results s1 = results st @ (case reply of Inr r \<Rightarrow> [spread_result r p sr] | Inl e \<Rightarrow> [])"
      using assms mk by (auto simp: monitorScanResult_def Let_def rq split: sum.splits if_splits)
    show "errors s1 = errors st @ (case reply of Inr r \<Rightarrow> [] | Inl e \<Rightarrow> if fatal e then [] else
        [\<lparr>err_error = ''Could not monitor dependencies in '' @ p, err_path = p, err_scanResult = sr\<rparr>])"
      using assms mk by (auto simp: monitorScanResult_def Let_def rq split: sum.splits if_splits)
    show "o1 = (case reply of Inr r \<Rightarrow> Inr () | Inl e \<Rightarrow> if fatal e then Inl (message e) else Inr ())"
      using assms mk by (auto simp: monitorScanResult_def Let_def rq split: sum.splits if_splits)
  qed
qed

lemma monitorScanResult_step:
  assumes run: "monitorScanResult mk env options p sr st = (o1, s1)" and r: "running ps st"
    and m: "monitor_recorded env options h0 st"
  shows "monitor_recorded env options h0 s1 \<and> spinner_calls s1 = spinner_calls st \<and>
         (case o1 of Inr u \<Rightarrow> running (ps @ [(p, sr)]) s1
                   | Inl m \<Rightarrow> aborted (ps @ [(p, sr)]) m s1)"
proof -
  from run obtain reply where
    c: "calls s1 = calls st @ [\<lparr>call_path = p, call_scanResult = sr,
        call_payload = monitor_payload env (on_wire ((heap st)(sr := filterFacts (heap st sr)))
           (generateMonitorDependenciesRequest env sr options)),
        call_reply = reply\<rparr>]"
    and h: "heap s1 = (heap st)(sr := filterFacts (heap st sr))"
    and sp: "spinner_calls s1 = spinner_calls st"
    and rs: "results s1 = results st @ (case reply of Inr r \<Rightarrow> [spread_result r p sr] | Inl e \<Rightarrow> [])"
    and es: "errors s1 = errors st @ (case reply of Inr r \<Rightarrow> [] | Inl e \<Rightarrow> if fatal e then [] else
        [\<lparr>err_error = ''Could not monitor dependencies in '' @ p, err_path = p, err_scanResult = sr\<rparr>])"
    and o: "o1 = (case reply of Inr r \<Rightarrow> Inr () | Inl e \<Rightarrow> if fatal e then Inl (message e) else Inr ())"
    by (rule monitorScanResult_shape)
  have hsr: "filterFacts (heap st sr) = filterFacts (h0 sr)"
  proof -
    from m have "heap st sr = (if sr \<in> call_scanResult ` set (calls st) then filterFacts (h0 sr) else h0 sr)"
      unfolding monitor_recorded_def by blast
    then show ?thesis
      by (cases "sr \<in> call_scanResult ` set (calls st)") (simp_all only: if_True if_False filterFacts_idem)
  qed
  have m1: "results s1 = map (\<lambda>c. spread_result (projr (call_reply c)) (call_path c) (call_scanResult c))
                   (filter ok_call (calls s1))"
    using m by (cases reply) (simp_all add: monitor_recorded_def c rs ok_call_def)
  have m2: "errors s1 = map (\<lambda>c. \<lparr>err_error = ''Could not monitor dependencies in '' @ call_path c,
                            err_path = call_path c, err_scanResult = call_scanResult c\<rparr>)
                   (filter soft_call (calls s1))"
    using m by (cases reply) (simp_all add: monitor_recorded_def c es soft_call_def)
  have m3: "\<forall>r. heap s1 r = (if r \<in> call_scanResult ` set (calls s1) then filterFacts (h0 r) else h0 r)"
    using m by (simp add: monitor_recorded_def c h filterFacts_idem)
  have w: "on_wire ((heap st)(sr := filterFacts (heap st sr))) (generateMonitorDependenciesRequest env sr options)
         = on_wire (\<lambda>r. filterFacts (h0 r)) (generateMonitorDependenciesRequest env sr options)"
    by (simp add: on_wire_def generateMonitorDependenciesRequest_def hsr)
  have m4: "\<forall>c \<in> set (calls s1). call_payload c =
         monitor_payload env (on_wire (\<lambda>r. filterFacts (h0 r))
           (generateMonitorDependenciesRequest env (call_scanResult c) options))"
  proof -
    from m have "\<forall>c \<in> set (calls st). call_payload c =
         monitor_payload env (on_wire (\<lambda>r. filterFacts (h0 r))
           (generateMonitorDependenciesRequest env (call_scanResult c) options))"
      unfolding monitor_recorded_def by blast
    then show ?thesis by (simp add: c w)
  qed
  have rec: "monitor_recorded env options h0 s1"
    unfolding monitor_recorded_def using m1 m2 m3 m4 by blast
  have out: "case o1 of Inr u \<Rightarrow> running (ps @ [(p, sr)]) s1
                   | Inl m \<Rightarrow> aborted (ps @ [(p, sr)]) m s1"
    using r by (cases reply) (auto simp: o c running_def aborted_def submitted_def fatal_call_def)
  from rec sp out show ?thesis by blast
qed

lemma monitorEntry_step:
  assumes run: "monitorEntry mk env options (p, srs) st = (o1, s1)"
    and r: "running ps st" and t: "monitor_recorded env options h0 st"
  shows "monitor_recorded env options h0 s1 \<and>
         (case o1 of Inr u \<Rightarrow> running (ps @ map (Pair p) srs) s1
                   | Inl m \<Rightarrow> aborted (ps @ map (Pair p) srs) m s1)"
proof -
  let ?s0 = "spinner (''Monitoring dependencies in '' @ p) st"
  let ?I = "\<lambda>pre s. running (ps @ map (Pair p) pre) s \<and> monitor_recorded env options h0 s"
  let ?E = "\<lambda>m s. aborted (ps @ map (Pair p) srs) m s \<and> monitor_recorded env options h0 s"
  from run have run': "for_of (monitorScanResult mk env options p) srs ?s0 = (o1, s1)"
    by (simp add: monitorEntry_def)
  have init: "?I [] ?s0"
    using r t by (simp add: spinner_def running_def monitor_recorded_def)
  have "case o1 of Inr u \<Rightarrow> ?I srs s1 | Inl m \<Rightarrow> ?E m s1"
  proof (rule for_of_rule[OF run', where I = ?I and E = ?E, OF init])
    fix pre x post s o2 s2
    assume xs: "srs = pre @ x # post" and i: "?I pre s"
      and b: "monitorScanResult mk env options p x s = (o2, s2)"
    from monitorScanResult_step[OF b, of "ps @ map (Pair p) pre" h0] i
    have st: "monitor_recorded env options h0 s2 \<and> spinner_calls s2 = spinner_calls s \<and>
         (case o2 of Inr u \<Rightarrow> running ((ps @ map (Pair p) pre) @ [(p, x)]) s2
                   | Inl m \<Rightarrow> aborted ((ps @ map (Pair p) pre) @ [(p, x)]) m s2)"
      by blast
    have pf: "prefix ((ps @ map (Pair p) pre) @ [(p, x)]) (ps @ map (Pair p) srs)"
      by (simp add: xs)
    show "case o2 of Inr u \<Rightarrow> ?I (pre @ [x]) s2 | Inl m \<Rightarrow> ?E m s2"
    proof (cases o2)
      case (Inl m)
      with st have "aborted ((ps @ map (Pair p) pre) @ [(p, x)]) m s2" by simp
      from aborted_mono[OF this pf] st Inl show ?thesis by simp
    next
      case (Inr u)
      with st show ?thesis by simp
    qed
  qed
  then show ?thesis by (cases o1) auto
qed

lemma monitor_loop:
  assumes run: "for_of (monitorEntry mk env options) scans st = (out, st')"
    and r: "running [] st" and t: "monitor_recorded env options h0 st"
  shows "monitor_recorded env options h0 st' \<and>
         (case out of Inr u \<Rightarrow> running (submissions scans) st'
                    | Inl m \<Rightarrow> aborted (submissions scans) m st')"
proof -
  let ?I = "\<lambda>pre s. running (submissions pre) s \<and> monitor_recorded env options h0 s"
  let ?E = "\<lambda>m s. aborted (submissions scans) m s \<and> monitor_recorded env options h0 s"
  have init: "?I [] st" using r t by (simp add: submissions_Nil)
  have "case out of Inr u \<Rightarrow> ?I scans st' | Inl m \<Rightarrow> ?E m st'"
  proof (rule for_of_rule[OF run, where I = ?I and E = ?E, OF init])
    fix pre x post s o2 s2
    assume xs: "scans = pre @ x # post" and i: "?I pre s"
      and b: "monitorEntry mk env options x s = (o2, s2)"
    obtain p srs where x: "x = (p, srs)" by (cases x)
    from monitorEntry_step[OF b[unfolded x], of "submissions pre" h0] i
    have st: "monitor_recorded env options h0 s2 \<and>
         (case o2 of Inr u \<Rightarrow> running (submissions pre @ map (Pair p) srs) s2
                   | Inl m \<Rightarrow> aborted (submissions pre @ map (Pair p) srs) m s2)"
      by blast
    have pf: "prefix (submissions pre @ map (Pair p) srs) (submissions scans)"
      by (simp add: xs x submissions_append submissions_Cons)
    show "case o2 of Inr u \<Rightarrow> ?I (pre @ [x]) s2 | Inl m \<Rightarrow> ?E m s2"
    proof (cases o2)
      case (Inl m)
      with st have "aborted (submissions pre @ map (Pair p) srs) m s2" by simp
      from aborted_mono[OF this pf] st Inl show ?thesis by simp
    next
      case (Inr u)
      with st show ?thesis
        by (simp add: x submissions_append submissions_Cons submissions_Nil)
    qed
  qed
  then show ?thesis by (cases out) auto
qed

lemma monitorDependencies_run:
  assumes run: "monitorDependencies mk env scans options st = (out, st')"
  shows "monitor_recorded env options (heap st) st' \<and>
         (case out of
            Inr v \<Rightarrow> v = (results st', errors st') \<and> running (submissions scans) st' \<and>
                     last (spinner_calls st') = SpinnerClearAll
          | Inl m \<Rightarrow> aborted (submissions scans) m st')"
proof -
  let ?s0 = "st\<lparr>results := [], errors := [], calls := []\<rparr>"
  obtain o1 s1 where l: "for_of (monitorEntry mk env options) scans ?s0 = (o1, s1)"
    by (cases "for_of (monitorEntry mk env options) scans ?s0")
  have "running [] ?s0" "monitor_recorded env options (heap st) ?s0"
    by (simp_all add: running_def monitor_recorded_def)
  from monitor_loop[OF l this]
  have f: "monitor_recorded env options (heap st) s1 \<and>
         (case o1 of Inr u \<Rightarrow> running (submissions scans) s1
                    | Inl m \<Rightarrow> aborted (submissions scans) m s1)" .
  show ?thesis
  proof (cases o1)
    case (Inl m)
    with run l have "out = Inl m" "st' = s1" by (simp_all add: monitorDependencies_def)
    with f Inl show ?thesis by simp
  next
    case (Inr u)
    with run l have "out = Inr (results s1, errors s1)" "st' = clearAll s1"
      by (simp_all add: monitorDependencies_def)
    with f Inr show ?thesis
      by (simp add: clearAll_def running_def monitor_recorded_def)
  qed
qed

lemma fatal_at_end:
  fixes out :: "string + 'a" and st :: "('w, 'r, 'e, 'q, 'p) state"
  assumes sh: "case out of Inr v \<Rightarrow> running ps st | Inl m \<Rightarrow> aborted ps m st"
    and i: "i < length (calls st)" and e: "call_reply (calls st ! i) = Inl e" and f: "fatal e"
  shows "out = Inl (message e)" and "length (calls st) = Suc i"
    and "map submitted (calls st) = take (Suc i) ps"
    and "filter ok_call (calls st) = filter ok_call (take i (calls st))"
    and "filter soft_call (calls st) = filter soft_call (take i (calls st))"
proof -
  have fc: "fatal_call (calls st ! i)" using e f by (simp add: fatal_call_def)
  have mem: "calls st ! i \<in> set (calls st)" using i by simp
  obtain m where out: "out = Inl m" and ab: "aborted ps m st"
  proof (cases out)
    case (Inl m)
    with sh that show ?thesis by simp
  next
    case (Inr v)
    with sh have "running ps st" by simp
    with fc mem show ?thesis by (auto simp: running_def)
  qed
  have nb: "\<not> i < length (butlast (calls st))"
  proof
    assume l: "i < length (butlast (calls st))"
    then have "butlast (calls st) ! i \<in> set (butlast (calls st))" by simp
    moreover from l have "butlast (calls st) ! i = calls st ! i" by (simp add: nth_butlast)
    ultimately show False using ab fc by (auto simp: aborted_def)
  qed
  with i show len: "length (calls st) = Suc i" by simp
  from ab have ne: "calls st \<noteq> []" by (simp add: aborted_def)
  have la: "last (calls st) = calls st ! i" using ne len by (simp add: last_conv_nth)
  from ab la e show "out = Inl (message e)" by (auto simp: aborted_def out)
  from ab have "prefix (map submitted (calls st)) ps" by (simp add: aborted_def)
  then have "map submitted (calls st) = take (length (map submitted (calls st))) ps"
    by (metis prefix_def append_eq_conv_conj)
  then show "map submitted (calls st) = take (Suc i) ps" using len by simp
  have sp: "calls st = take i (calls st) @ [calls st ! i]"
    using len by (metis lessI take_Suc_conv_app_nth take_all order_refl)
  have "\<not> ok_call (calls st ! i)" using e by (simp add: ok_call_def)
  then show "filter ok_call (calls st) = filter ok_call (take i (calls st))"
    by (subst sp) simp
  have "\<not> soft_call (calls st ! i)" using e f by (simp add: soft_call_def)
  then show "filter soft_call (calls st) = filter soft_call (take i (calls st))"
    by (subst sp) simp
qed

lemma soft_continues:
  fixes out :: "string + 'a" and st :: "('w, 'r, 'e, 'q, 'p) state"
  assumes sh: "case out of Inr v \<Rightarrow> running ps st | Inl m \<Rightarrow> aborted ps m st"
    and i: "i < length (calls st)" and s: "soft_call (calls st ! i)" and n: "Suc i < length ps"
  shows "Suc i < length (calls st)"
proof (cases out)
  case (Inl m)
  with sh have ab: "aborted ps m st" by simp
  then have ne: "calls st \<noteq> []" by (simp add: aborted_def)
  have "calls st ! i \<noteq> last (calls st)"
    using ab s by (auto simp: aborted_def soft_call_def)
  then have "i \<noteq> length (calls st) - 1" using ne by (auto simp: last_conv_nth)
  with i show ?thesis by simp
next
  case (Inr v)
  with sh have "map submitted (calls st) = ps" by (simp add: running_def)
  then have "length (calls st) = length ps" by (metis length_map)
  with n show ?thesis by simp
qed

lemma run_prefix:
  fixes out :: "string + 'a" and st :: "('w, 'r, 'e, 'q, 'p) state"
  assumes sh: "case out of Inr v \<Rightarrow> running ps st | Inl m \<Rightarrow> aborted ps m st"
  shows "prefix (map submitted (calls st)) ps"
  using sh by (cases out) (auto simp: running_def aborted_def)

lemma fold_push: "fold (\<lambda>x rs. rs @ [f x]) xs acc = acc @ map f xs"
  by (induction xs arbitrary: acc) simp_all

lemma getFormattedMonitorOutput_eq:
  "getFormattedMonitorOutput c h results0 monitorResults errors0 options =
     (if list_all result_ok (results0 @ map (good_entry c h options) monitorResults @ map (bad_entry c) errors0)
      then Inr (join_with ([CHR 0x0A] @ SEPARATOR) (map (render c)
             (results0 @ map (good_entry c h options) monitorResults @ map (bad_entry c) errors0)))
      else Inl (join_with ([CHR 0x0A] @ SEPARATOR) (map (render c)
             (results0 @ map (good_entry c h options) monitorResults @ map (bad_entry c) errors0))),
      results0 @ map (good_entry c h options) monitorResults @ map (bad_entry c) errors0)"
  unfolding getFormattedMonitorOutput_def Let_def fold_push by simp

lemma good_entry_ok: "result_ok (good_entry c h options monitorResult)"
  by (simp add: good_entry_def Let_def)

lemma bad_entry_not_ok: "\<not> result_ok (bad_entry c monitorError)"
  by (simp add: bad_entry_def)

lemma all_ok_iff:
  "list_all result_ok (results0 @ map (good_entry c h options) monitorResults @ map (bad_entry c) errors0)
   \<longleftrightarrow> list_all result_ok results0 \<and> errors0 = []"
  by (cases errors0) (auto simp: list_all_iff good_entry_ok bad_entry_not_ok)


lemma exchanged_snoc:
  "exchanged mk w cs w' \<Longrightarrow> mk w' (call_payload c) = (call_reply c, w'') \<Longrightarrow>
   exchanged mk w (cs @ [c]) w''"
  by (induction cs arbitrary: w) auto

lemma for_of_inv:
  assumes run: "for_of f xs s0 = (out, s')" and init: "P s0"
    and step: "\<And>x s o1 s1. P s \<Longrightarrow> f x s = (o1, s1) \<Longrightarrow> P s1"
  shows "P s'"
proof -
  have "case out of Inr u \<Rightarrow> P s' | Inl m \<Rightarrow> P s'"
  proof (rule for_of_rule[OF run, where I = "\<lambda>pre s. P s" and E = "\<lambda>m s. P s", OF init])
    fix pre x post s o1 s1
    assume "P s" and "f x s = (o1, s1)"
    then have "P s1" by (rule step)
    then show "case o1 of Inr u \<Rightarrow> P s1 | Inl m \<Rightarrow> P s1" by (cases o1) simp_all
  qed
  then show ?thesis by (cases out) simp_all
qed

lemma testScanResult_exchange:
  assumes "testScanResult mk env p sr st = (o1, s1)"
  obtains c where "calls s1 = calls st @ [c]"
    and "mk (world st) (call_payload c) = (call_reply c, world s1)"
proof -
  let ?pl = "test_payload env (heap st sr)"
  obtain reply w where mk: "mk (world st) ?pl = (reply, w)" by (cases "mk (world st) ?pl")
  let ?c = "\<lparr>call_path = p, call_scanResult = sr, call_payload = ?pl, call_reply = reply\<rparr>"
  have 1: "calls s1 = calls st @ [?c]"
    using assms mk by (auto simp: testScanResult_def Let_def split: sum.splits if_splits)
  have 2: "world s1 = w"
    using assms mk by (auto simp: testScanResult_def Let_def split: sum.splits if_splits)
  show ?thesis
    by (rule that[of ?c]) (simp_all add: 1 2 mk)
qed

lemma monitorScanResult_exchange:
  assumes "monitorScanResult mk env options p sr st = (o1, s1)"
  obtains c where "calls s1 = calls st @ [c]"
    and "mk (world st) (call_payload c) = (call_reply c, world s1)"
proof -
  let ?h = "(heap st)(sr := filterFacts (heap st sr))"
  let ?pl = "monitor_payload env (on_wire ?h (generateMonitorDependenciesRequest env sr options))"
  obtain reply w where mk: "mk (world st) ?pl = (reply, w)" by (cases "mk (world st) ?pl")
  have rq: "req_scanResult (generateMonitorDependenciesRequest env sr options) = sr"
    by (simp add: generateMonitorDependenciesRequest_def)
  let ?c = "\<lparr>call_path = p, call_scanResult = sr, call_payload = ?pl, call_reply = reply\<rparr>"
  have 1: "calls s1 = calls st @ [?c]"
    using assms mk by (auto simp: monitorScanResult_def Let_def rq split: sum.splits if_splits)
  have 2: "world s1 = w"
    using assms mk by (auto simp: monitorScanResult_def Let_def rq split: sum.splits if_splits)
  show ?thesis
    by (rule that[of ?c]) (simp_all add: 1 2 mk)
qed

lemma testDependencies_exchanged:
  assumes run: "testDependencies mk env scans st = (out, st')"
  shows "exchanged mk (world st) (calls st') (world st')"
proof -
  let ?P = "\<lambda>s. exchanged mk (world st) (calls s) (world s)"
  let ?s0 = "st\<lparr>results := [], errors := [], calls := []\<rparr>"
  have inner: "?P s1" if "?P s" and "testScanResult mk env p sr s = (o1, s1)" for p sr s o1 s1
  proof -
    from that(2) obtain c where "calls s1 = calls s @ [c]"
      and "mk (world s) (call_payload c) = (call_reply c, world s1)"
      by (rule testScanResult_exchange)
    with that(1) show ?thesis by (simp add: exchanged_snoc)
  qed
  have outer: "?P s1" if p: "?P s" and r: "testEntry mk env x s = (o1, s1)" for x s o1 s1
  proof -
    obtain p srs where x: "x = (p, srs)" by (cases x)
    from r have l: "for_of (testScanResult mk env p) srs (spinner (''Testing dependencies in '' @ p) s) = (o1, s1)"
      by (simp add: testEntry_def x)
    have i: "?P (spinner (''Testing dependencies in '' @ p) s)" using p by (simp add: spinner_def)
    show ?thesis by (rule for_of_inv[OF l, where P = ?P, OF i]) (rule inner)
  qed
  obtain o1 s1 where l: "for_of (testEntry mk env) scans ?s0 = (o1, s1)"
    by (cases "for_of (testEntry mk env) scans ?s0")
  have "?P ?s0" by simp
  have f: "?P s1" by (rule for_of_inv[OF l, where P = ?P, OF \<open>?P ?s0\<close>]) (rule outer)
  show ?thesis
    using run l f by (cases o1) (auto simp: testDependencies_def clearAll_def)
qed

lemma monitorDependencies_exchanged:
  assumes run: "monitorDependencies mk env scans options st = (out, st')"
  shows "exchanged mk (world st) (calls st') (world st')"
proof -
  let ?P = "\<lambda>s. exchanged mk (world st) (calls s) (world s)"
  let ?s0 = "st\<lparr>results := [], errors := [], calls := []\<rparr>"
  have inner: "?P s1" if "?P s" and "monitorScanResult mk env options p sr s = (o1, s1)" for p sr s o1 s1
  proof -
    from that(2) obtain c where "calls s1 = calls s @ [c]"
      and "mk (world s) (call_payload c) = (call_reply c, world s1)"
      by (rule monitorScanResult_exchange)
    with that(1) show ?thesis by (simp add: exchanged_snoc)
  qed
  have outer: "?P s1" if p: "?P s" and r: "monitorEntry mk env options x s = (o1, s1)" for x s o1 s1
  proof -
    obtain p srs where x: "x = (p, srs)" by (cases x)
    from r have l: "for_of (monitorScanResult mk env options p) srs
        (spinner (''Monitoring dependencies in '' @ p) s) = (o1, s1)"
      by (simp add: monitorEntry_def x)
    have i: "?P (spinner (''Monitoring dependencies in '' @ p) s)" using p by (simp add: spinner_def)
    show ?thesis by (rule for_of_inv[OF l, where P = ?P, OF i]) (rule inner)
  qed
  obtain o1 s1 where l: "for_of (monitorEntry mk env options) scans ?s0 = (o1, s1)"
    by (cases "for_of (monitorEntry mk env options) scans ?s0")
  have "?P ?s0" by simp
  have f: "?P s1" by (rule for_of_inv[OF l, where P = ?P, OF \<open>?P ?s0\<close>]) (rule outer)
  show ?thesis
    using run l f by (cases o1) (auto simp: monitorDependencies_def clearAll_def)
qed

lemma no_fatal_returns:
  fixes out :: "string + 'a" and st :: "('w, 'r, 'e, 'q, 'p) state"
  assumes sh: "case out of Inr v \<Rightarrow> running ps st | Inl m \<Rightarrow> aborted ps m st"
    and nf: "\<forall>c \<in> set (calls st). \<not> fatal_call c"
  shows "\<exists>v. out = Inr v"
proof (cases out)
  case (Inl m)
  with sh have ab: "aborted ps m st" by simp
  then have "calls st \<noteq> []" and "fatal_call (last (calls st))"
    by (auto simp: aborted_def fatal_call_def)
  with nf show ?thesis by (metis last_in_set)
next
  case (Inr v)
  then show ?thesis by simp
qed

lemma exchanged_replies:
  "exchanged mk w cs w' \<Longrightarrow> c \<in> set cs \<Longrightarrow> \<exists>w1. call_reply c = fst (mk w1 (call_payload c))"
  by (induction cs arbitrary: w) (auto simp: eq_commute)

lemma recording_exchanged:
  "exchanged recording w cs w' \<Longrightarrow> w' = w @ map call_payload cs"
proof (induction cs arbitrary: w)
  case Nil
  then show ?case by simp
next
  case (Cons c cs)
  have "snd (recording w (call_payload c)) = w @ [call_payload c]"
    by (simp add: recording_def)
  with Cons.prems have "exchanged recording (w @ [call_payload c]) cs w'"
    by simp
  from Cons.IH[OF this] show ?case by simp
qed

lemma join_with_Cons:
  "join_with sep (x # xs) = x @ (if xs = [] then [] else sep @ join_with sep xs)"
  by (cases xs) simp_all

lemma join_with_split:
  "join_with sep (xs @ y # ys) =
     (if xs = [] then [] else join_with sep xs @ sep) @ y @
     (if ys = [] then [] else sep @ join_with sep ys)"
proof (induction xs)
  case Nil
  show ?case by (simp add: join_with_Cons del: join_with.simps)
next
  case (Cons x xs)
  have "join_with sep ((x # xs) @ y # ys) = x @ sep @ join_with sep (xs @ y # ys)"
    by (simp add: join_with_Cons del: join_with.simps)
  also have "\<dots> = x @ sep @ (if xs = [] then [] else join_with sep xs @ sep) @ y @
     (if ys = [] then [] else sep @ join_with sep ys)"
    by (simp only: Cons.IH)
  also have "\<dots> = (join_with sep (x # xs) @ sep) @ y @
     (if ys = [] then [] else sep @ join_with sep ys)"
    by (simp add: join_with_Cons del: join_with.simps)
  finally show ?case by (simp del: join_with.simps)
qed

lemma join_with_contains:
  assumes "x \<in> set xs"
  shows "\<exists>u v. join_with sep xs = u @ x @ v"
proof -
  from assms obtain ys zs where "xs = ys @ x # zs" by (auto simp: in_set_conv_decomp)
  then show ?thesis using join_with_split[of sep ys x zs] by blast
qed

lemma join_with_order:
  assumes ij: "i < j" and j: "j < length xs"
  shows "\<exists>u v w. join_with sep xs = u @ xs ! i @ v @ xs ! j @ w"
proof -
  let ?r = "drop (Suc i) xs"
  from ij j have i: "i < length xs" by simp
  have xs: "xs = take i xs @ xs ! i # ?r" using i by (simp add: id_take_nth_drop)
  have rj: "?r ! (j - Suc i) = xs ! j" using ij j by simp
  have lr: "j - Suc i < length ?r" using ij j by simp
  have r: "?r = take (j - Suc i) ?r @ xs ! j # drop (Suc (j - Suc i)) ?r"
    using id_take_nth_drop[OF lr] rj by simp
  have ne: "?r \<noteq> []" using lr by auto
  define u where "u = (if take i xs = [] then [] else join_with sep (take i xs) @ sep)"
  define p where "p = (if take (j - Suc i) ?r = [] then [] else join_with sep (take (j - Suc i) ?r) @ sep)"
  define s where "s = (if drop (Suc (j - Suc i)) ?r = [] then []
                       else sep @ join_with sep (drop (Suc (j - Suc i)) ?r))"
  have "join_with sep xs = join_with sep (take i xs @ xs ! i # ?r)"
    by (rule arg_cong[OF xs])
  also have "\<dots> = u @ xs ! i @ sep @ join_with sep ?r"
    unfolding join_with_split u_def using ne by simp
  finally have 1: "join_with sep xs = u @ xs ! i @ sep @ join_with sep ?r" .
  have "join_with sep ?r = join_with sep (take (j - Suc i) ?r @ xs ! j # drop (Suc (j - Suc i)) ?r)"
    by (rule arg_cong[OF r])
  also have "\<dots> = p @ xs ! j @ s"
    unfolding join_with_split p_def s_def by simp
  finally have 2: "join_with sep ?r = p @ xs ! j @ s" .
  have "join_with sep xs = u @ xs ! i @ (sep @ p) @ xs ! j @ s"
    by (simp add: 1 2)
  then show ?thesis by blast
qed

section \<open>The example runs, evaluated\<close>

lemma test_run_403_eval:
  "test_run_403 =
     (Inl ''Forbidden'',
      \<lparr>results = [no_issues], errors = [],
       calls = [\<lparr>call_path = ''a'', call_scanResult = 0,
                  call_payload = test_payload example_env example_scan, call_reply = Inr no_issues\<rparr>,
                \<lparr>call_path = ''a'', call_scanResult = 1,
                  call_payload = test_payload example_env example_scan, call_reply = Inl forbidden\<rparr>],
       spinner_calls = [SpinnerStart ''Testing dependencies in a''],
       world = [Inr no_issues], heap = example_store\<rparr>)"
  by (simp add: test_run_403_def example_scans_def testDependencies_def testEntry_def
        testScanResult_def scripted_def Let_def spinner_def example_start_def fatal_def
        forbidden_def example_store_def)

lemma monitor_run_403_eval:
  "monitor_run_403 =
     (Inl ''Forbidden'',
      \<lparr>results = [spread_result monitored ''a'' 0], errors = [],
       calls = [\<lparr>call_path = ''a'', call_scanResult = 0,
                  call_payload = monitor_payload example_env
                    (on_wire (\<lambda>r. filterFacts example_scan)
                       (generateMonitorDependenciesRequest example_env 0 example_options)),
                  call_reply = Inr monitored\<rparr>,
                \<lparr>call_path = ''a'', call_scanResult = 1,
                  call_payload = monitor_payload example_env
                    (on_wire (\<lambda>r. filterFacts example_scan)
                       (generateMonitorDependenciesRequest example_env 1 example_options)),
                  call_reply = Inl forbidden\<rparr>],
       spinner_calls = [SpinnerStart ''Monitoring dependencies in a''],
       world = [Inr monitored],
       heap = example_store(0 := filterFacts example_scan, 1 := filterFacts example_scan)\<rparr>)"
  by (simp add: monitor_run_403_def example_scans_def monitorDependencies_def monitorEntry_def
        monitorScanResult_def scripted_def Let_def spinner_def example_start_def fatal_def
        forbidden_def example_store_def on_wire_def generateMonitorDependenciesRequest_def)

lemma test_run_503_eval:
  "test_run_503 =
     (Inr ([no_issues, no_issues], [''Could not test dependencies in a'']),
      \<lparr>results = [no_issues, no_issues], errors = [''Could not test dependencies in a''],
       calls = [\<lparr>call_path = ''a'', call_scanResult = 0,
                  call_payload = test_payload example_env example_scan, call_reply = Inr no_issues\<rparr>,
                \<lparr>call_path = ''a'', call_scanResult = 1,
                  call_payload = test_payload example_env example_scan, call_reply = Inl unavailable\<rparr>,
                \<lparr>call_path = ''b'', call_scanResult = 2,
                  call_payload = test_payload example_env example_scan, call_reply = Inr no_issues\<rparr>],
       spinner_calls = [SpinnerStart ''Testing dependencies in a'',
                        SpinnerStart ''Testing dependencies in b'', SpinnerClearAll],
       world = [], heap = example_store\<rparr>)"
  by (simp add: test_run_503_def example_scans_def testDependencies_def testEntry_def
        testScanResult_def scripted_def Let_def spinner_def clearAll_def example_start_def
        fatal_def unavailable_def example_store_def)

lemma monitor_run_503_eval:
  "monitor_run_503 =
     (Inr ([spread_result monitored ''a'' 0, spread_result monitored ''b'' 2],
           [\<lparr>err_error = ''Could not monitor dependencies in a'', err_path = ''a'',
             err_scanResult = 1\<rparr>]),
      \<lparr>results = [spread_result monitored ''a'' 0, spread_result monitored ''b'' 2],
       errors = [\<lparr>err_error = ''Could not monitor dependencies in a'', err_path = ''a'',
                  err_scanResult = 1\<rparr>],
       calls = [\<lparr>call_path = ''a'', call_scanResult = 0,
                  call_payload = monitor_payload example_env
                    (on_wire (\<lambda>r. filterFacts example_scan)
                       (generateMonitorDependenciesRequest example_env 0 example_options)),
                  call_reply = Inr monitored\<rparr>,
                \<lparr>call_path = ''a'', call_scanResult = 1,
                  call_payload = monitor_payload example_env
                    (on_wire (\<lambda>r. filterFacts example_scan)
                       (generateMonitorDependenciesRequest example_env 1 example_options)),
                  call_reply = Inl unavailable\<rparr>,
                \<lparr>call_path = ''b'', call_scanResult = 2,
                  call_payload = monitor_payload example_env
                    (on_wire (\<lambda>r. filterFacts example_scan)
                       (generateMonitorDependenciesRequest example_env 2 example_options)),
                  call_reply = Inr monitored\<rparr>],
       spinner_calls = [SpinnerStart ''Monitoring dependencies in a'',
                        SpinnerStart ''Monitoring dependencies in b'', SpinnerClearAll],
       world = [],
       heap = example_store(0 := filterFacts example_scan, 1 := filterFacts example_scan,
                2 := filterFacts example_scan)\<rparr>)"
  by (simp add: monitor_run_503_def example_scans_def monitorDependencies_def monitorEntry_def
        monitorScanResult_def scripted_def Let_def spinner_def clearAll_def example_start_def
        fatal_def unavailable_def example_store_def on_wire_def
        generateMonitorDependenciesRequest_def)

lemma test_run_lone_503_eval:
  "test_run_lone_503 =
     (Inr ([], [''Could not test dependencies in a'']),
      \<lparr>results = [], errors = [''Could not test dependencies in a''],
       calls = [\<lparr>call_path = ''a'', call_scanResult = 0,
                  call_payload = test_payload example_env example_scan, call_reply = Inl unavailable\<rparr>],
       spinner_calls = [SpinnerStart ''Testing dependencies in a'', SpinnerClearAll],
       world = [], heap = example_store\<rparr>)"
  by (simp add: test_run_lone_503_def testDependencies_def testEntry_def
        testScanResult_def scripted_def Let_def spinner_def clearAll_def example_start_def
        fatal_def unavailable_def example_store_def)

lemma monitor_run_lone_503_eval:
  "monitor_run_lone_503 =
     (Inr ([], [\<lparr>err_error = ''Could not monitor dependencies in a'', err_path = ''a'',
                 err_scanResult = 0\<rparr>]),
      \<lparr>results = [],
       errors = [\<lparr>err_error = ''Could not monitor dependencies in a'', err_path = ''a'',
                  err_scanResult = 0\<rparr>],
       calls = [\<lparr>call_path = ''a'', call_scanResult = 0,
                  call_payload = monitor_payload example_env
                    (on_wire (\<lambda>r. filterFacts example_scan)
                       (generateMonitorDependenciesRequest example_env 0 example_options)),
                  call_reply = Inl unavailable\<rparr>],
       spinner_calls = [SpinnerStart ''Monitoring dependencies in a'', SpinnerClearAll],
       world = [],
       heap = example_store(0 := filterFacts example_scan)\<rparr>)"
  by (simp add: monitor_run_lone_503_def monitorDependencies_def monitorEntry_def
        monitorScanResult_def scripted_def Let_def spinner_def clearAll_def example_start_def
        fatal_def unavailable_def example_store_def on_wire_def
        generateMonitorDependenciesRequest_def)

section \<open>The claims\<close>

text \<open>
  C1. In a run of \<open>testDependencies\<close> or \<open>monitorDependencies\<close>, when a call of
  \<open>makeRequest\<close> is rejected with an error whose code is in [400, 500), the run
  throws an error whose message is that error's message; the rejected call is the
  last call of the run, so no pair after the failing one is submitted, and the results
  and the error entries are those of the calls before it.
\<close>

theorem fatal_rejection_aborts:
  "(testDependencies mk env scans st = (out, st') \<and> i < length (calls st') \<and>
      call_reply (calls st' ! i) = Inl e \<and> fatal e \<longrightarrow>
      out = Inl (message e) \<and> length (calls st') = Suc i \<and>
      map submitted (calls st') = take (Suc i) (submissions scans) \<and>
      results st' = map (\<lambda>c. projr (call_reply c)) (filter ok_call (take i (calls st'))) \<and>
      errors st' = map (\<lambda>c. ''Could not test dependencies in '' @ call_path c)
                     (filter soft_call (take i (calls st')))) \<and>
   (monitorDependencies mmk env scans options mst = (mout, mst') \<and> j < length (calls mst') \<and>
      call_reply (calls mst' ! j) = Inl e' \<and> fatal e' \<longrightarrow>
      mout = Inl (message e') \<and> length (calls mst') = Suc j \<and>
      map submitted (calls mst') = take (Suc j) (submissions scans) \<and>
      results mst' = map (\<lambda>c. spread_result (projr (call_reply c)) (call_path c) (call_scanResult c))
                       (filter ok_call (take j (calls mst'))) \<and>
      errors mst' = map (\<lambda>c. \<lparr>err_error = ''Could not monitor dependencies in '' @ call_path c,
                                err_path = call_path c, err_scanResult = call_scanResult c\<rparr>)
                      (filter soft_call (take j (calls mst'))))"
proof (intro conjI impI)
  assume a: "testDependencies mk env scans st = (out, st') \<and> i < length (calls st') \<and>
      call_reply (calls st' ! i) = Inl e \<and> fatal e"
  from testDependencies_run[of mk env scans st out st'] a
  have rec: "test_recorded st'"
    and sh: "case out of Inr v \<Rightarrow> running (submissions scans) st' | Inl m \<Rightarrow> aborted (submissions scans) m st'"
    by (auto split: sum.splits)
  from a have i: "i < length (calls st')" and e: "call_reply (calls st' ! i) = Inl e" and f: "fatal e"
    by simp_all
  note fs = fatal_at_end[OF sh i e f]
  show "out = Inl (message e)" by (rule fs(1))
  show "length (calls st') = Suc i" by (rule fs(2))
  show "map submitted (calls st') = take (Suc i) (submissions scans)" by (rule fs(3))
  show "results st' = map (\<lambda>c. projr (call_reply c)) (filter ok_call (take i (calls st')))"
    using rec fs(4) by (simp add: test_recorded_def)
  show "errors st' = map (\<lambda>c. ''Could not test dependencies in '' @ call_path c)
                     (filter soft_call (take i (calls st')))"
    using rec fs(5) by (simp add: test_recorded_def)
next
  assume a: "monitorDependencies mmk env scans options mst = (mout, mst') \<and> j < length (calls mst') \<and>
      call_reply (calls mst' ! j) = Inl e' \<and> fatal e'"
  from monitorDependencies_run[of mmk env scans options mst mout mst'] a
  have rec: "monitor_recorded env options (heap mst) mst'"
    and sh: "case mout of Inr v \<Rightarrow> running (submissions scans) mst' | Inl m \<Rightarrow> aborted (submissions scans) m mst'"
    by (auto split: sum.splits)
  from a have i: "j < length (calls mst')" and e: "call_reply (calls mst' ! j) = Inl e'" and f: "fatal e'"
    by simp_all
  note fs = fatal_at_end[OF sh i e f]
  show "mout = Inl (message e')" by (rule fs(1))
  show "length (calls mst') = Suc j" by (rule fs(2))
  show "map submitted (calls mst') = take (Suc j) (submissions scans)" by (rule fs(3))
  show "results mst' = map (\<lambda>c. spread_result (projr (call_reply c)) (call_path c) (call_scanResult c))
                       (filter ok_call (take j (calls mst')))"
    using rec fs(4) by (simp add: monitor_recorded_def)
  show "errors mst' = map (\<lambda>c. \<lparr>err_error = ''Could not monitor dependencies in '' @ call_path c,
                                err_path = call_path c, err_scanResult = call_scanResult c\<rparr>)
                      (filter soft_call (take j (calls mst')))"
    using rec fs(5) by (simp add: monitor_recorded_def)
qed

theorem fatal_rejection_aborts_witness:
  "call_reply (calls (snd test_run_403) ! 1) = Inl forbidden \<and> fatal forbidden \<and>
   fst test_run_403 = Inl ''Forbidden'' \<and> length (calls (snd test_run_403)) = 2 \<and>
   map submitted (calls (snd test_run_403)) = [(''a'', 0), (''a'', 1)] \<and>
   results (snd test_run_403) = [no_issues] \<and> errors (snd test_run_403) = [] \<and>
   call_reply (calls (snd monitor_run_403) ! 1) = Inl forbidden \<and>
   fst monitor_run_403 = Inl ''Forbidden'' \<and> length (calls (snd monitor_run_403)) = 2 \<and>
   map submitted (calls (snd monitor_run_403)) = [(''a'', 0), (''a'', 1)] \<and>
   results (snd monitor_run_403) = [spread_result monitored ''a'' 0] \<and>
   errors (snd monitor_run_403) = []"
proof -
  have f: "fatal forbidden" by (simp add: fatal_def forbidden_def)
  have t: "testDependencies scripted example_env example_scans
             (example_start [Inr no_issues, Inl forbidden, Inr no_issues])
           = (fst test_run_403, snd test_run_403)"
    by (simp add: test_run_403_def)
  have ti: "1 < length (calls (snd test_run_403))" by (simp add: test_run_403_eval)
  have te: "call_reply (calls (snd test_run_403) ! 1) = Inl forbidden"
    by (simp add: test_run_403_eval)
  have m: "monitorDependencies scripted example_env example_scans example_options
             (example_start [Inr monitored, Inl forbidden, Inr monitored])
           = (fst monitor_run_403, snd monitor_run_403)"
    by (simp add: monitor_run_403_def)
  have mi: "1 < length (calls (snd monitor_run_403))" by (simp add: monitor_run_403_eval)
  have me: "call_reply (calls (snd monitor_run_403) ! 1) = Inl forbidden"
    by (simp add: monitor_run_403_eval)
  have sub: "submissions example_scans = [(''a'', 0), (''a'', 1), (''b'', 2)]"
    by (simp add: submissions_def example_scans_def)
  have msg: "message forbidden = ''Forbidden''" by (simp add: forbidden_def)
  from fatal_rejection_aborts[THEN conjunct1, rule_format, OF conjI[OF t conjI[OF ti conjI[OF te f]]]]
  have a: "fst test_run_403 = Inl ''Forbidden'' \<and> length (calls (snd test_run_403)) = 2 \<and>
     map submitted (calls (snd test_run_403)) = [(''a'', 0), (''a'', 1)]"
    by (simp add: sub msg)
  from fatal_rejection_aborts[THEN conjunct2, rule_format, OF conjI[OF m conjI[OF mi conjI[OF me f]]]]
  have b: "fst monitor_run_403 = Inl ''Forbidden'' \<and> length (calls (snd monitor_run_403)) = 2 \<and>
     map submitted (calls (snd monitor_run_403)) = [(''a'', 0), (''a'', 1)]"
    by (simp add: sub msg)
  have c: "results (snd test_run_403) = [no_issues] \<and> errors (snd test_run_403) = []"
    by (simp add: test_run_403_eval)
  have d: "results (snd monitor_run_403) = [spread_result monitored ''a'' 0] \<and>
     errors (snd monitor_run_403) = []"
    by (simp add: monitor_run_403_eval)
  from a b c d te me f show ?thesis by blast
qed

text \<open>
  C2. In a run of \<open>testDependencies\<close> or \<open>monitorDependencies\<close>, every call
  rejected with an error whose code is not in [400, 500) leaves exactly one error entry,
  keyed by the path of the call (and by its scan result, for monitor), in the order of
  the calls; after such a call the run goes on with the next pair, if there is one; the
  results are the responses of the calls that resolved, in the order of the calls. The
  calls are the exchanges with \<open>makeRequest\<close>, in their order. A run in which no call
  is rejected with a code in [400, 500), and so every run against a remote side that
  never rejects with such a code, returns: it returns these results and error entries,
  and it has submitted every pair.
\<close>

theorem soft_rejection_continues:
  "(testDependencies mk env scans st = (out, st') \<longrightarrow>
      errors st' = map (\<lambda>c. ''Could not test dependencies in '' @ call_path c)
                     (filter soft_call (calls st')) \<and>
      results st' = map (\<lambda>c. projr (call_reply c)) (filter ok_call (calls st')) \<and>
      prefix (map submitted (calls st')) (submissions scans) \<and>
      exchanged mk (world st) (calls st') (world st') \<and>
      (\<forall>i. i < length (calls st') \<and> soft_call (calls st' ! i) \<and>
           Suc i < length (submissions scans) \<longrightarrow> Suc i < length (calls st')) \<and>
      (\<forall>rs es. out = Inr (rs, es) \<longrightarrow>
           rs = results st' \<and> es = errors st' \<and>
           map submitted (calls st') = submissions scans) \<and>
      ((\<forall>c \<in> set (calls st'). \<not> fatal_call c) \<longrightarrow>
           out = Inr (results st', errors st') \<and>
           map submitted (calls st') = submissions scans) \<and>
      ((\<forall>w pl e. fst (mk w pl) = Inl e \<longrightarrow> \<not> fatal e) \<longrightarrow>
           out = Inr (results st', errors st') \<and>
           map submitted (calls st') = submissions scans)) \<and>
   (monitorDependencies mmk env scans options mst = (mout, mst') \<longrightarrow>
      errors mst' = map (\<lambda>c. \<lparr>err_error = ''Could not monitor dependencies in '' @ call_path c,
                                err_path = call_path c, err_scanResult = call_scanResult c\<rparr>)
                      (filter soft_call (calls mst')) \<and>
      results mst' = map (\<lambda>c. spread_result (projr (call_reply c)) (call_path c) (call_scanResult c))
                       (filter ok_call (calls mst')) \<and>
      prefix (map submitted (calls mst')) (submissions scans) \<and>
      exchanged mmk (world mst) (calls mst') (world mst') \<and>
      (\<forall>i. i < length (calls mst') \<and> soft_call (calls mst' ! i) \<and>
           Suc i < length (submissions scans) \<longrightarrow> Suc i < length (calls mst')) \<and>
      (\<forall>rs es. mout = Inr (rs, es) \<longrightarrow>
           rs = results mst' \<and> es = errors mst' \<and>
           map submitted (calls mst') = submissions scans) \<and>
      ((\<forall>c \<in> set (calls mst'). \<not> fatal_call c) \<longrightarrow>
           mout = Inr (results mst', errors mst') \<and>
           map submitted (calls mst') = submissions scans) \<and>
      ((\<forall>w pl e. fst (mmk w pl) = Inl e \<longrightarrow> \<not> fatal e) \<longrightarrow>
           mout = Inr (results mst', errors mst') \<and>
           map submitted (calls mst') = submissions scans))"
proof (intro conjI impI allI)
  assume a: "testDependencies mk env scans st = (out, st')"
  from testDependencies_run[OF a]
  have rec: "test_recorded st'"
    and sh: "case out of Inr v \<Rightarrow> running (submissions scans) st' | Inl m \<Rightarrow> aborted (submissions scans) m st'"
    and ret: "case out of Inr v \<Rightarrow> v = (results st', errors st') | Inl m \<Rightarrow> True"
    by (auto split: sum.splits)
  note ex = testDependencies_exchanged[OF a]
  show "errors st' = map (\<lambda>c. ''Could not test dependencies in '' @ call_path c)
                     (filter soft_call (calls st'))"
    using rec by (simp add: test_recorded_def)
  show "results st' = map (\<lambda>c. projr (call_reply c)) (filter ok_call (calls st'))"
    using rec by (simp add: test_recorded_def)
  show "prefix (map submitted (calls st')) (submissions scans)"
    by (rule run_prefix[OF sh])
  show "exchanged mk (world st) (calls st') (world st')" by (rule ex)
  { fix i
    assume "i < length (calls st') \<and> soft_call (calls st' ! i) \<and> Suc i < length (submissions scans)"
    then show "Suc i < length (calls st')"
      using soft_continues[OF sh, of i] by blast }
  { fix rs es
    assume o: "out = Inr (rs, es)"
    with ret show "rs = results st'" and "es = errors st'" by simp_all
    from o sh show "map submitted (calls st') = submissions scans" by (simp add: running_def) }
  have ret_nf: "out = Inr (results st', errors st') \<and> map submitted (calls st') = submissions scans"
    if nf: "\<forall>c \<in> set (calls st'). \<not> fatal_call c"
  proof -
    from no_fatal_returns[OF sh nf] obtain v where v: "out = Inr v" by blast
    with ret sh show ?thesis by (simp add: running_def)
  qed
  { assume "\<forall>c \<in> set (calls st'). \<not> fatal_call c"
    from ret_nf[OF this]
    show "out = Inr (results st', errors st')" and "map submitted (calls st') = submissions scans"
      by simp_all }
  { assume r: "\<forall>w pl e. fst (mk w pl) = Inl e \<longrightarrow> \<not> fatal e"
    have "\<forall>c \<in> set (calls st'). \<not> fatal_call c"
    proof
      fix c assume "c \<in> set (calls st')"
      from exchanged_replies[OF ex this] obtain w1 where "call_reply c = fst (mk w1 (call_payload c))"
        by blast
      with r show "\<not> fatal_call c" by (auto simp: fatal_call_def split: sum.splits)
    qed
    from ret_nf[OF this]
    show "out = Inr (results st', errors st')" and "map submitted (calls st') = submissions scans"
      by simp_all }
next
  assume a: "monitorDependencies mmk env scans options mst = (mout, mst')"
  from monitorDependencies_run[OF a]
  have rec: "monitor_recorded env options (heap mst) mst'"
    and sh: "case mout of Inr v \<Rightarrow> running (submissions scans) mst' | Inl m \<Rightarrow> aborted (submissions scans) m mst'"
    and ret: "case mout of Inr v \<Rightarrow> v = (results mst', errors mst') | Inl m \<Rightarrow> True"
    by (auto split: sum.splits)
  note ex = monitorDependencies_exchanged[OF a]
  show "errors mst' = map (\<lambda>c. \<lparr>err_error = ''Could not monitor dependencies in '' @ call_path c,
                                err_path = call_path c, err_scanResult = call_scanResult c\<rparr>)
                      (filter soft_call (calls mst'))"
    using rec by (simp add: monitor_recorded_def)
  show "results mst' = map (\<lambda>c. spread_result (projr (call_reply c)) (call_path c) (call_scanResult c))
                       (filter ok_call (calls mst'))"
    using rec by (simp add: monitor_recorded_def)
  show "prefix (map submitted (calls mst')) (submissions scans)"
    by (rule run_prefix[OF sh])
  show "exchanged mmk (world mst) (calls mst') (world mst')" by (rule ex)
  { fix i
    assume "i < length (calls mst') \<and> soft_call (calls mst' ! i) \<and> Suc i < length (submissions scans)"
    then show "Suc i < length (calls mst')"
      using soft_continues[OF sh, of i] by blast }
  { fix rs es
    assume o: "mout = Inr (rs, es)"
    with ret show "rs = results mst'" and "es = errors mst'" by simp_all
    from o sh show "map submitted (calls mst') = submissions scans" by (simp add: running_def) }
  have ret_nf: "mout = Inr (results mst', errors mst') \<and> map submitted (calls mst') = submissions scans"
    if nf: "\<forall>c \<in> set (calls mst'). \<not> fatal_call c"
  proof -
    from no_fatal_returns[OF sh nf] obtain v where v: "mout = Inr v" by blast
    with ret sh show ?thesis by (simp add: running_def)
  qed
  { assume "\<forall>c \<in> set (calls mst'). \<not> fatal_call c"
    from ret_nf[OF this]
    show "mout = Inr (results mst', errors mst')" and "map submitted (calls mst') = submissions scans"
      by simp_all }
  { assume r: "\<forall>w pl e. fst (mmk w pl) = Inl e \<longrightarrow> \<not> fatal e"
    have "\<forall>c \<in> set (calls mst'). \<not> fatal_call c"
    proof
      fix c assume "c \<in> set (calls mst')"
      from exchanged_replies[OF ex this] obtain w1 where "call_reply c = fst (mmk w1 (call_payload c))"
        by blast
      with r show "\<not> fatal_call c" by (auto simp: fatal_call_def split: sum.splits)
    qed
    from ret_nf[OF this]
    show "mout = Inr (results mst', errors mst')" and "map submitted (calls mst') = submissions scans"
      by simp_all }
qed

theorem soft_rejection_continues_witness:
  "soft_call (calls (snd test_run_lone_503) ! 0) \<and>
   fst test_run_lone_503 = Inr ([], [''Could not test dependencies in a'']) \<and>
   soft_call (calls (snd test_run_503) ! 1) \<and>
   fst test_run_503 = Inr ([no_issues, no_issues], [''Could not test dependencies in a'']) \<and>
   map submitted (calls (snd test_run_503)) = [(''a'', 0), (''a'', 1), (''b'', 2)] \<and>
   soft_call (calls (snd monitor_run_lone_503) ! 0) \<and>
   fst monitor_run_lone_503 =
     Inr ([], [\<lparr>err_error = ''Could not monitor dependencies in a'', err_path = ''a'',
                 err_scanResult = 0\<rparr>]) \<and>
   soft_call (calls (snd monitor_run_503) ! 1) \<and>
   fst monitor_run_503 =
     Inr ([spread_result monitored ''a'' 0, spread_result monitored ''b'' 2],
          [\<lparr>err_error = ''Could not monitor dependencies in a'', err_path = ''a'',
            err_scanResult = 1\<rparr>]) \<and>
   map submitted (calls (snd monitor_run_503)) = [(''a'', 0), (''a'', 1), (''b'', 2)]"
proof -
  have t1: "testDependencies scripted example_env [(''a'', [0])] (example_start [Inl unavailable])
           = (fst test_run_lone_503, snd test_run_lone_503)"
    by (simp add: test_run_lone_503_def)
  have t3: "testDependencies scripted example_env example_scans
             (example_start [Inr no_issues, Inl unavailable, Inr no_issues])
           = (fst test_run_503, snd test_run_503)"
    by (simp add: test_run_503_def)
  have m1: "monitorDependencies scripted example_env [(''a'', [0])] example_options
             (example_start [Inl unavailable])
           = (fst monitor_run_lone_503, snd monitor_run_lone_503)"
    by (simp add: monitor_run_lone_503_def)
  have m3: "monitorDependencies scripted example_env example_scans example_options
             (example_start [Inr monitored, Inl unavailable, Inr monitored])
           = (fst monitor_run_503, snd monitor_run_503)"
    by (simp add: monitor_run_503_def)
  have sub: "submissions example_scans = [(''a'', 0), (''a'', 1), (''b'', 2)]"
    by (simp add: submissions_def example_scans_def)
  have nt1: "\<forall>c \<in> set (calls (snd test_run_lone_503)). \<not> fatal_call c"
    by (simp add: test_run_lone_503_eval fatal_call_def fatal_def unavailable_def)
  have nt3: "\<forall>c \<in> set (calls (snd test_run_503)). \<not> fatal_call c"
    by (simp add: test_run_503_eval fatal_call_def fatal_def unavailable_def)
  have nm1: "\<forall>c \<in> set (calls (snd monitor_run_lone_503)). \<not> fatal_call c"
    by (simp add: monitor_run_lone_503_eval fatal_call_def fatal_def unavailable_def)
  have nm3: "\<forall>c \<in> set (calls (snd monitor_run_503)). \<not> fatal_call c"
    by (simp add: monitor_run_503_eval fatal_call_def fatal_def unavailable_def)
  have s: "soft_call (calls (snd test_run_lone_503) ! 0)" "soft_call (calls (snd test_run_503) ! 1)"
    "soft_call (calls (snd monitor_run_lone_503) ! 0)" "soft_call (calls (snd monitor_run_503) ! 1)"
    by (simp_all add: test_run_lone_503_eval test_run_503_eval monitor_run_lone_503_eval
          monitor_run_503_eval soft_call_def fatal_def unavailable_def)
  have r: "results (snd test_run_lone_503) = []"
    "errors (snd test_run_lone_503) = [''Could not test dependencies in a'']"
    "results (snd test_run_503) = [no_issues, no_issues]"
    "errors (snd test_run_503) = [''Could not test dependencies in a'']"
    "results (snd monitor_run_lone_503) = []"
    "errors (snd monitor_run_lone_503) =
       [\<lparr>err_error = ''Could not monitor dependencies in a'', err_path = ''a'', err_scanResult = 0\<rparr>]"
    "results (snd monitor_run_503) = [spread_result monitored ''a'' 0, spread_result monitored ''b'' 2]"
    "errors (snd monitor_run_503) =
       [\<lparr>err_error = ''Could not monitor dependencies in a'', err_path = ''a'', err_scanResult = 1\<rparr>]"
    by (simp_all add: test_run_lone_503_eval test_run_503_eval monitor_run_lone_503_eval
          monitor_run_503_eval)
  note T1 = soft_rejection_continues[THEN conjunct1, THEN mp, OF t1]
  note T3 = soft_rejection_continues[THEN conjunct1, THEN mp, OF t3]
  note M1 = soft_rejection_continues[THEN conjunct2, THEN mp, OF m1]
  note M3 = soft_rejection_continues[THEN conjunct2, THEN mp, OF m3]
  from T1 nt1 have a: "fst test_run_lone_503 =
      Inr (results (snd test_run_lone_503), errors (snd test_run_lone_503))"
    by blast
  from T3 nt3 have b: "fst test_run_503 = Inr (results (snd test_run_503), errors (snd test_run_503)) \<and>
      map submitted (calls (snd test_run_503)) = submissions example_scans"
    by blast
  from M1 nm1 have c: "fst monitor_run_lone_503 =
      Inr (results (snd monitor_run_lone_503), errors (snd monitor_run_lone_503))"
    by blast
  from M3 nm3 have d: "fst monitor_run_503 =
      Inr (results (snd monitor_run_503), errors (snd monitor_run_503)) \<and>
      map submitted (calls (snd monitor_run_503)) = submissions example_scans"
    by blast
  from a b c d s show ?thesis by (simp add: r sub)
qed

text \<open>
  C3. The calls of a run of \<open>monitorDependencies\<close> are the exchanges with
  \<open>makeRequest\<close>: it was handed the payload of each call. In every call, the scan
  result in the request body is the submitted object as it was before the run, with the
  facts of type \<open>imageOsReleasePrettyName\<close> removed and all other facts kept as they
  are and in their order; no fact of that type is in the body.
\<close>

theorem monitor_body_is_filtered:
  "monitorDependencies mk env scans options st = (out, st') \<longrightarrow>
     exchanged mk (world st) (calls st') (world st') \<and>
     (\<forall>c \<in> set (calls st').
        req_scanResult (body (call_payload c)) =
          (heap st (call_scanResult c))
            \<lparr>facts := filter (\<lambda>fact. type fact \<noteq> ''imageOsReleasePrettyName'')
                        (facts (heap st (call_scanResult c)))\<rparr> \<and>
        (\<forall>fact \<in> set (facts (req_scanResult (body (call_payload c)))).
           type fact \<noteq> ''imageOsReleasePrettyName''))"
proof
  assume a: "monitorDependencies mk env scans options st = (out, st')"
  have 1: "exchanged mk (world st) (calls st') (world st')"
    by (rule monitorDependencies_exchanged[OF a])
  have 2: "\<forall>c \<in> set (calls st').
        req_scanResult (body (call_payload c)) =
          (heap st (call_scanResult c))
            \<lparr>facts := filter (\<lambda>fact. type fact \<noteq> ''imageOsReleasePrettyName'')
                        (facts (heap st (call_scanResult c)))\<rparr> \<and>
        (\<forall>fact \<in> set (facts (req_scanResult (body (call_payload c)))).
           type fact \<noteq> ''imageOsReleasePrettyName'')"
  proof
    fix c
    assume c: "c \<in> set (calls st')"
    from monitorDependencies_run[OF a] have "monitor_recorded env options (heap st) st'" by blast
    with c have "call_payload c = monitor_payload env (on_wire (\<lambda>r. filterFacts (heap st r))
             (generateMonitorDependenciesRequest env (call_scanResult c) options))"
      unfolding monitor_recorded_def by blast
    then have "req_scanResult (body (call_payload c)) = filterFacts (heap st (call_scanResult c))"
      by (simp add: monitor_payload_def on_wire_def generateMonitorDependenciesRequest_def)
    then show "req_scanResult (body (call_payload c)) =
          (heap st (call_scanResult c))
            \<lparr>facts := filter (\<lambda>fact. type fact \<noteq> ''imageOsReleasePrettyName'')
                        (facts (heap st (call_scanResult c)))\<rparr> \<and>
        (\<forall>fact \<in> set (facts (req_scanResult (body (call_payload c)))).
           type fact \<noteq> ''imageOsReleasePrettyName'')"
      by (simp add: filterFacts_def)
  qed
  from 1 2 show "exchanged mk (world st) (calls st') (world st') \<and>
     (\<forall>c \<in> set (calls st').
        req_scanResult (body (call_payload c)) =
          (heap st (call_scanResult c))
            \<lparr>facts := filter (\<lambda>fact. type fact \<noteq> ''imageOsReleasePrettyName'')
                        (facts (heap st (call_scanResult c)))\<rparr> \<and>
        (\<forall>fact \<in> set (facts (req_scanResult (body (call_payload c)))).
           type fact \<noteq> ''imageOsReleasePrettyName''))"
    by (rule conjI)
qed

theorem monitor_body_is_filtered_witness:
  "facts (example_store 0) = [os_fact, graph_fact] \<and>
   type os_fact = ''imageOsReleasePrettyName'' \<and>
   map (\<lambda>pl. facts (req_scanResult (body pl))) (world (snd monitor_run_recorded)) =
     [[graph_fact], [graph_fact], [graph_fact]]"
proof -
  have m: "monitorDependencies recording example_env example_scans example_options (example_start [])
           = (fst monitor_run_recorded, snd monitor_run_recorded)"
    by (simp add: monitor_run_recorded_def)
  have f: "facts (example_store r) = [os_fact, graph_fact]" for r
    by (simp add: example_store_def example_scan_def)
  have t: "type os_fact = ''imageOsReleasePrettyName''" by (simp add: os_fact_def)
  have g: "filter (\<lambda>fact. type fact \<noteq> ''imageOsReleasePrettyName'') [os_fact, graph_fact] = [graph_fact]"
    by (simp add: os_fact_def graph_fact_def)
  have n: "length (calls (snd monitor_run_recorded)) = 3"
    by (simp add: monitor_run_recorded_def example_scans_def monitorDependencies_def monitorEntry_def
        monitorScanResult_def recording_def Let_def spinner_def clearAll_def example_start_def)
  note T = monitor_body_is_filtered[THEN mp, OF m]
  from T[THEN conjunct1]
  have "exchanged recording [] (calls (snd monitor_run_recorded)) (world (snd monitor_run_recorded))"
    by (simp add: example_start_def)
  from recording_exchanged[OF this]
  have w: "world (snd monitor_run_recorded) = map call_payload (calls (snd monitor_run_recorded))"
    by simp
  note B = T[THEN conjunct2, rule_format, THEN conjunct1]
  have "\<forall>c \<in> set (calls (snd monitor_run_recorded)).
      facts (req_scanResult (body (call_payload c))) = [graph_fact]"
  proof
    fix c
    assume "c \<in> set (calls (snd monitor_run_recorded))"
    from B[OF this] have "facts (req_scanResult (body (call_payload c))) =
        filter (\<lambda>fact. type fact \<noteq> ''imageOsReleasePrettyName'')
          (facts (example_store (call_scanResult c)))"
      by (simp add: example_start_def)
    then show "facts (req_scanResult (body (call_payload c))) = [graph_fact]"
      by (simp only: f g)
  qed
  then have "map (\<lambda>pl. facts (req_scanResult (body pl))) (world (snd monitor_run_recorded)) =
      replicate (length (calls (snd monitor_run_recorded))) [graph_fact]"
    unfolding w by (simp add: map_replicate_const[symmetric] comp_def cong: map_cong)
  then have "map (\<lambda>pl. facts (req_scanResult (body pl))) (world (snd monitor_run_recorded)) =
     [[graph_fact], [graph_fact], [graph_fact]]"
    by (simp add: n numeral_3_eq_3)
  with f t show ?thesis by blast
qed

text \<open>
  C4. \<open>getEcosystem\<close> returns \<open>cpp\<close> when \<open>source\<close> is set (truthy), whatever
  \<open>container\<close> and \<open>isDockerUser\<close> are; it returns \<open>docker\<close> when \<open>source\<close> is not
  set, \<open>container\<close> is and \<open>isDockerUser\<close> is not; and it returns \<open>null\<close> in every
  other case, so also when \<open>container\<close> and \<open>isDockerUser\<close> are both set.
\<close>

theorem getEcosystem_selects:
  "(truthy (source options) \<longrightarrow> getEcosystem options = Some cpp) \<and>
   (\<not> truthy (source options) \<and> truthy (container options) \<and> \<not> truthy (isDockerUser options) \<longrightarrow>
      getEcosystem options = Some docker) \<and>
   (\<not> truthy (source options) \<and> \<not> (truthy (container options) \<and> \<not> truthy (isDockerUser options)) \<longrightarrow>
      getEcosystem options = None)"
  by (simp add: getEcosystem_def)

theorem getEcosystem_selects_witness:
  "truthy (source source_options) \<and> getEcosystem source_options = Some cpp \<and>
   \<not> truthy (source example_options) \<and> truthy (container example_options) \<and>
   \<not> truthy (isDockerUser example_options) \<and> getEcosystem example_options = Some docker \<and>
   truthy (container desktop_options) \<and> truthy (isDockerUser desktop_options) \<and>
   getEcosystem desktop_options = None"
proof -
  have a: "truthy (source source_options)" by (simp add: truthy_def source_options_def)
  have b: "\<not> truthy (source example_options) \<and> truthy (container example_options) \<and>
           \<not> truthy (isDockerUser example_options)"
    by (simp add: truthy_def example_options_def)
  have c: "\<not> truthy (source desktop_options) \<and>
           \<not> (truthy (container desktop_options) \<and> \<not> truthy (isDockerUser desktop_options))"
    by (simp add: truthy_def desktop_options_def)
  have d: "truthy (container desktop_options) \<and> truthy (isDockerUser desktop_options)"
    by (simp add: truthy_def desktop_options_def)
  from getEcosystem_selects[of source_options, THEN conjunct1, rule_format, OF a]
    getEcosystem_selects[of example_options, THEN conjunct2, THEN conjunct1, rule_format, OF b]
    getEcosystem_selects[of desktop_options, THEN conjunct2, THEN conjunct2, rule_format, OF c]
    a b d
  show ?thesis by blast
qed




text \<open>
  C6. \<open>getFormattedMonitorOutput\<close> joins the rendering of all entries: the caller's,
  then one per monitor result, then one per monitor error. When every entry is a
  success (the caller's entries are, and there is no monitor error) it returns this
  string; otherwise it throws an error whose message is this same string. The rendering
  of every entry, success or failure, is a part of the string.
\<close>

theorem formatter_returns_or_throws_report:
  "(list_all result_ok (snd (getFormattedMonitorOutput c h results0 monitorResults errors0 options)) \<longrightarrow>
      fst (getFormattedMonitorOutput c h results0 monitorResults errors0 options) =
        Inr (join_with ([CHR 0x0A] @ SEPARATOR) (map (render c)
               (snd (getFormattedMonitorOutput c h results0 monitorResults errors0 options))))) \<and>
   (\<not> list_all result_ok (snd (getFormattedMonitorOutput c h results0 monitorResults errors0 options)) \<longrightarrow>
      fst (getFormattedMonitorOutput c h results0 monitorResults errors0 options) =
        Inl (join_with ([CHR 0x0A] @ SEPARATOR) (map (render c)
               (snd (getFormattedMonitorOutput c h results0 monitorResults errors0 options))))) \<and>
   (list_all result_ok (snd (getFormattedMonitorOutput c h results0 monitorResults errors0 options))
      \<longleftrightarrow> list_all result_ok results0 \<and> errors0 = []) \<and>
   snd (getFormattedMonitorOutput c h results0 monitorResults errors0 options) =
     results0 @ map (good_entry c h options) monitorResults @ map (bad_entry c) errors0 \<and>
   (\<forall>entry \<in> set (snd (getFormattedMonitorOutput c h results0 monitorResults errors0 options)).
      \<exists>u v. join_with ([CHR 0x0A] @ SEPARATOR) (map (render c)
               (snd (getFormattedMonitorOutput c h results0 monitorResults errors0 options))) =
            u @ render c entry @ v)"
proof -
  let ?E = "results0 @ map (good_entry c h options) monitorResults @ map (bad_entry c) errors0"
  have s: "snd (getFormattedMonitorOutput c h results0 monitorResults errors0 options) = ?E"
    by (simp add: getFormattedMonitorOutput_eq)
  have f: "fst (getFormattedMonitorOutput c h results0 monitorResults errors0 options) =
     (if list_all result_ok ?E
      then Inr (join_with ([CHR 0x0A] @ SEPARATOR) (map (render c) ?E))
      else Inl (join_with ([CHR 0x0A] @ SEPARATOR) (map (render c) ?E)))"
    by (simp add: getFormattedMonitorOutput_eq)
  have c: "\<forall>entry \<in> set ?E.
      \<exists>u v. join_with ([CHR 0x0A] @ SEPARATOR) (map (render c) ?E) = u @ render c entry @ v"
  proof
    fix entry assume "entry \<in> set ?E"
    then have "render c entry \<in> render c ` set ?E" by (rule imageI)
    then have "render c entry \<in> set (map (render c) ?E)" by (simp only: set_map)
    then show "\<exists>u v. join_with ([CHR 0x0A] @ SEPARATOR) (map (render c) ?E) = u @ render c entry @ v"
      by (rule join_with_contains)
  qed
  have g1: "list_all result_ok ?E \<longrightarrow>
      fst (getFormattedMonitorOutput c h results0 monitorResults errors0 options) =
        Inr (join_with ([CHR 0x0A] @ SEPARATOR) (map (render c) ?E))"
  proof
    assume "list_all result_ok ?E"
    then show "fst (getFormattedMonitorOutput c h results0 monitorResults errors0 options) =
        Inr (join_with ([CHR 0x0A] @ SEPARATOR) (map (render c) ?E))"
      unfolding f by (simp only: if_True)
  qed
  have g2: "\<not> list_all result_ok ?E \<longrightarrow>
      fst (getFormattedMonitorOutput c h results0 monitorResults errors0 options) =
        Inl (join_with ([CHR 0x0A] @ SEPARATOR) (map (render c) ?E))"
  proof
    assume "\<not> list_all result_ok ?E"
    then show "fst (getFormattedMonitorOutput c h results0 monitorResults errors0 options) =
        Inl (join_with ([CHR 0x0A] @ SEPARATOR) (map (render c) ?E))"
      unfolding f by (simp only: if_False)
  qed
  note g3 = all_ok_iff[of results0 c h options monitorResults errors0]
  show ?thesis
    unfolding s by (intro conjI) (rule g1 g2 g3 refl c)+
qed

theorem formatter_returns_or_throws_report_witness:
  "list_all result_ok (snd formatted_ok) \<and>
   fst formatted_ok =
     Inr (''Monitoring a (my-image)'' @ [CHR 0x0A, CHR 0x0A] @
          ''-------------------------------------------------------'' @ [CHR 0x0A] @
          ''Monitoring b (my-image)'') \<and>
   \<not> list_all result_ok (snd formatted_failed) \<and>
   fst formatted_failed =
     Inl (''Monitoring a (my-image)'' @ [CHR 0x0A, CHR 0x0A] @
          ''-------------------------------------------------------'' @ [CHR 0x0A] @
          [CHR 0x0A] @ ''Monitoring a...'' @ [CHR 0x0A, CHR 0x0A] @
          ''Server returned unexpected error for the monitor request. Status code: 500'')"
proof -
  have ok: "list_all result_ok (snd formatted_ok)"
    by (simp add: formatted_ok_def getFormattedMonitorOutput_eq good_entry_ok)
  have bad: "\<not> list_all result_ok (snd formatted_failed)"
    by (simp add: formatted_failed_def getFormattedMonitorOutput_eq good_entry_ok bad_entry_not_ok)
  have r1: "map (render example_collaborators) (snd formatted_ok) =
      [''Monitoring a (my-image)'', ''Monitoring b (my-image)'']"
    by (simp add: formatted_ok_def getFormattedMonitorOutput_eq good_entry_def render_def
          example_collaborators_def spread_result_def monitored_def Let_def)
  have r2: "map (render example_collaborators) (snd formatted_failed) =
      [''Monitoring a (my-image)'',
      [CHR 0x0A] @ ''Monitoring a...'' @ [CHR 0x0A, CHR 0x0A] @
        ''Server returned unexpected error for the monitor request. Status code: 500'']"
    by (simp add: formatted_failed_def getFormattedMonitorOutput_eq good_entry_def bad_entry_def
          render_def example_collaborators_def spread_result_def monitored_def Let_def
          example_monitor_error_def)
  from formatter_returns_or_throws_report[of example_collaborators example_store "[]"
      "[spread_result monitored ''a'' 0, spread_result monitored ''b'' 2]" "[]" example_options,
      folded formatted_ok_def, THEN conjunct1, rule_format, OF ok]
  have a: "fst formatted_ok =
     Inr (''Monitoring a (my-image)'' @ [CHR 0x0A, CHR 0x0A] @
          ''-------------------------------------------------------'' @ [CHR 0x0A] @
          ''Monitoring b (my-image)'')"
    by (simp add: r1 SEPARATOR_def)
  from formatter_returns_or_throws_report[of example_collaborators example_store "[]"
      "[spread_result monitored ''a'' 0]" "[example_monitor_error]" example_options,
      folded formatted_failed_def, THEN conjunct2, THEN conjunct1, rule_format, OF bad]
  have b: "fst formatted_failed =
     Inl (''Monitoring a (my-image)'' @ [CHR 0x0A, CHR 0x0A] @
          ''-------------------------------------------------------'' @ [CHR 0x0A] @
          [CHR 0x0A] @ ''Monitoring a...'' @ [CHR 0x0A, CHR 0x0A] @
          ''Server returned unexpected error for the monitor request. Status code: 500'')"
    by (simp add: r2 SEPARATOR_def)
  show ?thesis by (intro conjI) (rule ok a bad b)+
qed

text \<open>
  C7. The progress indicator after a run. When the second call is rejected with the code
  403, \<open>testDependencies\<close> and \<open>monitorDependencies\<close> throw and the only call made
  to the indicator is the one that started it for path \<open>a\<close>: \<open>spinner.clearAll()\<close>
  stands after the loops only, and the \<open>throw\<close> leaves the function before it. When
  the rejection has the code 503, the same runs return and \<open>clearAll\<close> is the last
  call made to the indicator.
\<close>

theorem spinner_left_running_on_throw:
  "fst test_run_403 = Inl ''Forbidden'' \<and>
   spinner_calls (snd test_run_403) = [SpinnerStart ''Testing dependencies in a''] \<and>
   fst monitor_run_403 = Inl ''Forbidden'' \<and>
   spinner_calls (snd monitor_run_403) = [SpinnerStart ''Monitoring dependencies in a''] \<and>
   last (spinner_calls (snd test_run_503)) = SpinnerClearAll \<and>
   last (spinner_calls (snd monitor_run_503)) = SpinnerClearAll"
  by (simp add: test_run_403_eval monitor_run_403_eval test_run_503_eval monitor_run_503_eval)

text \<open>
  C8. The request built by \<open>generateMonitorDependenciesRequest\<close> carries the scan
  result, the method \<open>cli\<close>, and as project name the option \<open>project-name\<close> when it
  is set, else \<open>config.PROJECT_NAME\<close> when that is set, else \<open>undefined\<close>. The code
  tests with \<open>||\<close>, so a name is set when it is present and not the empty string.
\<close>

theorem request_method_and_project_name:
  "req_method (generateMonitorDependenciesRequest env scanResult options) = Some ''cli'' \<and>
   req_scanResult (generateMonitorDependenciesRequest env scanResult options) = scanResult \<and>
   req_projectName (generateMonitorDependenciesRequest env scanResult options) =
     (if truthy_str (project_name options) then project_name options
      else if truthy_str (config_PROJECT_NAME env) then config_PROJECT_NAME env
      else None)"
  by (simp add: generateMonitorDependenciesRequest_def js_or_def truthy_str_def)

theorem request_method_and_project_name_witness:
  "req_projectName (generateMonitorDependenciesRequest configured_env 0 named_options) = Some ''my-project'' \<and>
   req_projectName (generateMonitorDependenciesRequest configured_env 0 example_options) = Some ''configured'' \<and>
   req_projectName (generateMonitorDependenciesRequest example_env 0 example_options) = None \<and>
   req_projectName (generateMonitorDependenciesRequest configured_env 0 empty_name_options) = Some ''configured'' \<and>
   req_method (generateMonitorDependenciesRequest example_env 0 example_options) = Some ''cli''"
  using request_method_and_project_name[of configured_env 0 named_options]
    request_method_and_project_name[of configured_env 0 example_options]
    request_method_and_project_name[of example_env 0 example_options]
    request_method_and_project_name[of configured_env 0 empty_name_options]
  by (simp add: truthy_str_def named_options_def example_options_def configured_env_def
        example_env_def empty_name_options_def)

text \<open>
  C9, as stated, fails on a run that a 4xx aborts: with the second call rejected with
  the code 403, \<open>monitorDependencies\<close> throws, and the object of path \<open>b\<close>, which is
  in the caller's map, still has its OS-release fact.
\<close>

theorem abort_leaves_later_objects_unfiltered:
  "(''b'', 2) \<in> set (submissions example_scans) \<and>
   fst monitor_run_403 = Inl ''Forbidden'' \<and>
   facts (heap (snd monitor_run_403) 2) = [os_fact, graph_fact] \<and>
   type os_fact = ''imageOsReleasePrettyName'' \<and>
   heap (snd monitor_run_403) 2 \<noteq> filterFacts (example_store 2)"
  by (simp add: monitor_run_403_eval submissions_def example_scans_def example_store_def
        example_scan_def os_fact_def graph_fact_def filterFacts_def)

text \<open>
  C9, amended. In every run, \<open>monitorDependencies\<close> assigns the filtered list to the
  \<open>facts\<close> field of each object it has submitted (including one whose call was
  rejected), and leaves every other field and every other object as it was. When the run
  returns, every object of the caller's map has been submitted, and so filtered, and the
  scan result of each returned result and error entry is an object of the caller's map,
  under the path of the entry.
\<close>

theorem monitor_filters_submitted_objects:
  "monitorDependencies mk env scans options st = (out, st') \<longrightarrow>
     (\<forall>r. heap st' r =
        (if r \<in> call_scanResult ` set (calls st')
         then (heap st r)\<lparr>facts := filter (\<lambda>fact. type fact \<noteq> ''imageOsReleasePrettyName'')
                                    (facts (heap st r))\<rparr>
         else heap st r)) \<and>
     (\<forall>rs es. out = Inr (rs, es) \<longrightarrow>
        (\<forall>p r. (p, r) \<in> set (submissions scans) \<longrightarrow>
           heap st' r = (heap st r)\<lparr>facts := filter (\<lambda>fact. type fact \<noteq> ''imageOsReleasePrettyName'')
                                      (facts (heap st r))\<rparr>) \<and>
        (\<forall>x \<in> set rs. (res_path x, res_scanResult x) \<in> set (submissions scans)) \<and>
        (\<forall>x \<in> set es. (err_path x, err_scanResult x) \<in> set (submissions scans)))"
proof (intro impI)
  assume a: "monitorDependencies mk env scans options st = (out, st')"
  from monitorDependencies_run[OF a]
  have rec: "monitor_recorded env options (heap st) st'"
    and sh: "case out of Inr v \<Rightarrow> v = (results st', errors st') \<and> running (submissions scans) st'
                       | Inl m \<Rightarrow> True"
    by (auto split: sum.splits)
  from rec have hp: "\<forall>r. heap st' r =
        (if r \<in> call_scanResult ` set (calls st') then filterFacts (heap st r) else heap st r)"
    unfolding monitor_recorded_def by blast
  have A: "\<forall>r. heap st' r =
        (if r \<in> call_scanResult ` set (calls st')
         then (heap st r)\<lparr>facts := filter (\<lambda>fact. type fact \<noteq> ''imageOsReleasePrettyName'')
                                    (facts (heap st r))\<rparr>
         else heap st r)"
    using hp by (simp add: filterFacts_def)
  have B: "\<forall>rs es. out = Inr (rs, es) \<longrightarrow>
        (\<forall>p r. (p, r) \<in> set (submissions scans) \<longrightarrow>
           heap st' r = (heap st r)\<lparr>facts := filter (\<lambda>fact. type fact \<noteq> ''imageOsReleasePrettyName'')
                                      (facts (heap st r))\<rparr>) \<and>
        (\<forall>x \<in> set rs. (res_path x, res_scanResult x) \<in> set (submissions scans)) \<and>
        (\<forall>x \<in> set es. (err_path x, err_scanResult x) \<in> set (submissions scans))"
  proof (intro allI impI)
    fix rs es
    assume o: "out = Inr (rs, es)"
    with sh have rs: "rs = results st'" and es: "es = errors st'"
      and sub: "map submitted (calls st') = submissions scans"
      by (simp_all add: running_def)
    from sub have ss: "set (submissions scans) = submitted ` set (calls st')"
      by (metis set_map)
    have 1: "\<forall>p r. (p, r) \<in> set (submissions scans) \<longrightarrow>
           heap st' r = (heap st r)\<lparr>facts := filter (\<lambda>fact. type fact \<noteq> ''imageOsReleasePrettyName'')
                                      (facts (heap st r))\<rparr>"
    proof (intro allI impI)
      fix p r
      assume "(p, r) \<in> set (submissions scans)"
      with ss obtain c where "c \<in> set (calls st')" and "submitted c = (p, r)" by auto
      then have "r \<in> call_scanResult ` set (calls st')"
        by (auto simp: submitted_def)
      with A show "heap st' r = (heap st r)\<lparr>facts := filter (\<lambda>fact. type fact \<noteq> ''imageOsReleasePrettyName'')
                                      (facts (heap st r))\<rparr>"
        by simp
    qed
    from rec have r': "results st' = map (\<lambda>c. spread_result (projr (call_reply c)) (call_path c) (call_scanResult c))
                   (filter ok_call (calls st'))"
      and e': "errors st' = map (\<lambda>c. \<lparr>err_error = ''Could not monitor dependencies in '' @ call_path c,
                            err_path = call_path c, err_scanResult = call_scanResult c\<rparr>)
                   (filter soft_call (calls st'))"
      unfolding monitor_recorded_def by blast+
    have 2: "\<forall>x \<in> set rs. (res_path x, res_scanResult x) \<in> set (submissions scans)"
    proof
      fix x assume "x \<in> set rs"
      with rs r' obtain c where c: "c \<in> set (calls st')"
        and x: "x = spread_result (projr (call_reply c)) (call_path c) (call_scanResult c)"
        by auto
      from x have "(res_path x, res_scanResult x) = submitted c"
        by (simp add: spread_result_def submitted_def)
      with c ss show "(res_path x, res_scanResult x) \<in> set (submissions scans)" by simp
    qed
    have 3: "\<forall>x \<in> set es. (err_path x, err_scanResult x) \<in> set (submissions scans)"
    proof
      fix x assume "x \<in> set es"
      with es e' obtain c where c: "c \<in> set (calls st')"
        and x: "x = \<lparr>err_error = ''Could not monitor dependencies in '' @ call_path c,
                            err_path = call_path c, err_scanResult = call_scanResult c\<rparr>"
        by auto
      from x have "(err_path x, err_scanResult x) = submitted c"
        by (simp add: submitted_def)
      with c ss show "(err_path x, err_scanResult x) \<in> set (submissions scans)" by simp
    qed
    from 1 2 3 show "(\<forall>p r. (p, r) \<in> set (submissions scans) \<longrightarrow>
           heap st' r = (heap st r)\<lparr>facts := filter (\<lambda>fact. type fact \<noteq> ''imageOsReleasePrettyName'')
                                      (facts (heap st r))\<rparr>) \<and>
        (\<forall>x \<in> set rs. (res_path x, res_scanResult x) \<in> set (submissions scans)) \<and>
        (\<forall>x \<in> set es. (err_path x, err_scanResult x) \<in> set (submissions scans))"
      by blast
  qed
  from A B show "(\<forall>r. heap st' r =
        (if r \<in> call_scanResult ` set (calls st')
         then (heap st r)\<lparr>facts := filter (\<lambda>fact. type fact \<noteq> ''imageOsReleasePrettyName'')
                                    (facts (heap st r))\<rparr>
         else heap st r)) \<and>
     (\<forall>rs es. out = Inr (rs, es) \<longrightarrow>
        (\<forall>p r. (p, r) \<in> set (submissions scans) \<longrightarrow>
           heap st' r = (heap st r)\<lparr>facts := filter (\<lambda>fact. type fact \<noteq> ''imageOsReleasePrettyName'')
                                      (facts (heap st r))\<rparr>) \<and>
        (\<forall>x \<in> set rs. (res_path x, res_scanResult x) \<in> set (submissions scans)) \<and>
        (\<forall>x \<in> set es. (err_path x, err_scanResult x) \<in> set (submissions scans)))"
    by (rule conjI)
qed

theorem monitor_filters_submitted_objects_witness:
  "1 \<in> call_scanResult ` set (calls (snd monitor_run_403)) \<and>
   facts (heap (snd monitor_run_403) 1) = [graph_fact] \<and>
   (''b'', 2) \<in> set (submissions example_scans) \<and>
   facts (heap (snd monitor_run_503) 2) = [graph_fact] \<and>
   identity (heap (snd monitor_run_503) 2) = identity example_scan \<and>
   spread_result monitored ''b'' 2 \<in> set (results (snd monitor_run_503)) \<and>
   (''b'', 2) = (res_path (spread_result monitored ''b'' 2), res_scanResult (spread_result monitored ''b'' 2))"
proof -
  let ?filt = "\<lambda>s. s\<lparr>facts := filter (\<lambda>fact. type fact \<noteq> ''imageOsReleasePrettyName'') (facts s)\<rparr>"
  have m3: "monitorDependencies scripted example_env example_scans example_options
             (example_start [Inr monitored, Inl forbidden, Inr monitored])
           = (fst monitor_run_403, snd monitor_run_403)"
    by (simp add: monitor_run_403_def)
  have m5: "monitorDependencies scripted example_env example_scans example_options
             (example_start [Inr monitored, Inl unavailable, Inr monitored])
           = (fst monitor_run_503, snd monitor_run_503)"
    by (simp add: monitor_run_503_def)
  have h3: "heap (example_start [Inr monitored, Inl forbidden, Inr monitored]) = example_store"
    by (simp add: example_start_def)
  have h5: "heap (example_start [Inr monitored, Inl unavailable, Inr monitored]) = example_store"
    by (simp add: example_start_def)
  have fl: "?filt (example_store r) = example_scan\<lparr>facts := [graph_fact]\<rparr>" for r
    by (simp add: example_store_def example_scan_def os_fact_def graph_fact_def)
  have in3: "1 \<in> call_scanResult ` set (calls (snd monitor_run_403))"
    by (simp add: monitor_run_403_eval)
  have sub: "(''b'', 2) \<in> set (submissions example_scans)"
    by (simp add: submissions_def example_scans_def)
  have mo: "fst monitor_run_503 =
      Inr ([spread_result monitored ''a'' 0, spread_result monitored ''b'' 2],
           [\<lparr>err_error = ''Could not monitor dependencies in a'', err_path = ''a'',
             err_scanResult = 1\<rparr>])"
    by (simp add: monitor_run_503_eval)
  note A = monitor_filters_submitted_objects[THEN mp, OF m3, THEN conjunct1, THEN spec, of 1]
  from A in3 have a: "heap (snd monitor_run_403) 1 = example_scan\<lparr>facts := [graph_fact]\<rparr>"
    by (simp only: if_True h3 fl)
  note B = monitor_filters_submitted_objects[THEN mp, OF m5, THEN conjunct2, rule_format, OF mo,
      THEN conjunct1, rule_format, OF sub]
  from B have b: "heap (snd monitor_run_503) 2 = example_scan\<lparr>facts := [graph_fact]\<rparr>"
    by (simp only: h5 fl)
  have c: "spread_result monitored ''b'' 2 \<in> set (results (snd monitor_run_503))"
    by (simp add: monitor_run_503_eval)
  have d: "(''b'', 2) = (res_path (spread_result monitored ''b'' 2), res_scanResult (spread_result monitored ''b'' 2))"
    by (simp add: spread_result_def)
  from a b have "facts (heap (snd monitor_run_403) 1) = [graph_fact]"
    "facts (heap (snd monitor_run_503) 2) = [graph_fact]"
    "identity (heap (snd monitor_run_503) 2) = identity example_scan"
    by simp_all
  with in3 sub c d show ?thesis by blast
qed

text \<open>
  C10. After \<open>getFormattedMonitorOutput\<close>, whether it returned or threw, the caller's
  array holds its former entries, then one success entry per monitor result in the order
  of \<open>monitorResults\<close>, then one failure entry per monitor error in the order of
  \<open>errors\<close>; the report is the rendering of these entries in this order. In the
  report the text of every monitor success (the output of \<open>formatMonitorOutput\<close>) stands
  before the text of every monitor failure (which begins with the header of its path).
\<close>

theorem formatter_appends_successes_then_failures:
  "snd (getFormattedMonitorOutput c h results0 monitorResults errors0 options) =
     results0 @ map (good_entry c h options) monitorResults @ map (bad_entry c) errors0 \<and>
   (case fst (getFormattedMonitorOutput c h results0 monitorResults errors0 options) of
      Inl report \<Rightarrow> report | Inr report \<Rightarrow> report) =
     join_with ([CHR 0x0A] @ SEPARATOR)
       (map (render c) results0 @
        map (\<lambda>monitorResult. render c (good_entry c h options monitorResult)) monitorResults @
        map (\<lambda>monitorError. render c (bad_entry c monitorError)) errors0) \<and>
   list_all result_ok (map (good_entry c h options) monitorResults) \<and>
   list_all (\<lambda>entry. \<not> result_ok entry) (map (bad_entry c) errors0) \<and>
   (\<forall>i j. i < length monitorResults \<and> j < length errors0 \<longrightarrow>
      (\<exists>u v w.
         (case fst (getFormattedMonitorOutput c h results0 monitorResults errors0 options) of
            Inl report \<Rightarrow> report | Inr report \<Rightarrow> report) =
         u @ render c (good_entry c h options (monitorResults ! i)) @ v @
           render c (bad_entry c (errors0 ! j)) @ w)) \<and>
   (\<forall>monitorResult.
      render c (good_entry c h options monitorResult) =
        formatMonitorOutput c (identity_type (identity (h (res_scanResult monitorResult))))
          monitorResult options (projectName monitorResult)
          (getExtraProjectCount c (res_path monitorResult) options)) \<and>
   (\<forall>monitorError. \<exists>errorMessage.
      render c (bad_entry c monitorError) =
        chalk_bold_white c
          ([CHR 0x0A] @ ''Monitoring '' @ err_path monitorError @ ''...'' @ [CHR 0x0A, CHR 0x0A])
        @ errorMessage)"
proof -
  let ?X = "getFormattedMonitorOutput c h results0 monitorResults errors0 options"
  let ?E = "results0 @ map (good_entry c h options) monitorResults @ map (bad_entry c) errors0"
  let ?R = "case fst ?X of Inl report \<Rightarrow> report | Inr report \<Rightarrow> report"
  let ?L = "map (render c) ?E"
  have s: "snd ?X = ?E" by (simp add: getFormattedMonitorOutput_eq)
  have r: "?R = join_with ([CHR 0x0A] @ SEPARATOR) ?L"
    unfolding getFormattedMonitorOutput_eq fst_conv by (simp del: join_with.simps map_append)
  have r': "?R = join_with ([CHR 0x0A] @ SEPARATOR)
       (map (render c) results0 @
        map (\<lambda>monitorResult. render c (good_entry c h options monitorResult)) monitorResults @
        map (\<lambda>monitorError. render c (bad_entry c monitorError)) errors0)"
    unfolding r by (simp add: comp_def del: join_with.simps)
  have g: "list_all result_ok (map (good_entry c h options) monitorResults)"
    by (simp add: list_all_iff good_entry_ok)
  have b: "list_all (\<lambda>entry. \<not> result_ok entry) (map (bad_entry c) errors0)"
    by (simp add: list_all_iff bad_entry_not_ok)
  have o: "\<forall>i j. i < length monitorResults \<and> j < length errors0 \<longrightarrow>
      (\<exists>u v w. ?R = u @ render c (good_entry c h options (monitorResults ! i)) @ v @
           render c (bad_entry c (errors0 ! j)) @ w)"
  proof (intro allI impI)
    fix i j
    assume ij: "i < length monitorResults \<and> j < length errors0"
    let ?i = "length results0 + i"
    let ?j = "length results0 + length monitorResults + j"
    have 1: "?i < ?j" using ij by simp
    have 2: "?j < length ?L" using ij by simp
    have 3: "?L ! ?i = render c (good_entry c h options (monitorResults ! i))"
      using ij by (simp add: nth_append)
    have 4: "?L ! ?j = render c (bad_entry c (errors0 ! j))"
      using ij by (simp add: nth_append)
    from join_with_order[OF 1 2, of "[CHR 0x0A] @ SEPARATOR"]
    show "\<exists>u v w. ?R = u @ render c (good_entry c h options (monitorResults ! i)) @ v @
           render c (bad_entry c (errors0 ! j)) @ w"
      unfolding r 3 4 .
  qed
  have rg: "\<forall>monitorResult.
      render c (good_entry c h options monitorResult) =
        formatMonitorOutput c (identity_type (identity (h (res_scanResult monitorResult))))
          monitorResult options (projectName monitorResult)
          (getExtraProjectCount c (res_path monitorResult) options)"
    by (simp add: render_def good_entry_def Let_def)
  have rb: "\<forall>monitorError. \<exists>errorMessage.
      render c (bad_entry c monitorError) =
        chalk_bold_white c
          ([CHR 0x0A] @ ''Monitoring '' @ err_path monitorError @ ''...'' @ [CHR 0x0A, CHR 0x0A])
        @ errorMessage"
    by (simp add: render_def bad_entry_def Let_def)
  show ?thesis
    by (intro conjI) (rule s r' g b o rg rb)+
qed

theorem formatter_appends_successes_then_failures_witness:
  "snd formatted_mixed =
     [GoodResult ''Monitoring earlier (npm)'' ''earlier'' None,
      good_entry example_collaborators example_store example_options (spread_result monitored ''a'' 0),
      good_entry example_collaborators example_store example_options (spread_result monitored ''b'' 2),
      bad_entry example_collaborators example_monitor_error,
      bad_entry example_collaborators example_monitor_error_b] \<and>
   (case fst formatted_mixed of Inl report \<Rightarrow> report | Inr report \<Rightarrow> report) =
     ''Monitoring earlier (npm)'' @
     [CHR 0x0A, CHR 0x0A] @ ''-------------------------------------------------------'' @ [CHR 0x0A] @
     ''Monitoring a (my-image)'' @
     [CHR 0x0A, CHR 0x0A] @ ''-------------------------------------------------------'' @ [CHR 0x0A] @
     ''Monitoring b (my-image)'' @
     [CHR 0x0A, CHR 0x0A] @ ''-------------------------------------------------------'' @ [CHR 0x0A] @
     [CHR 0x0A] @ ''Monitoring a...'' @ [CHR 0x0A, CHR 0x0A] @
     ''Server returned unexpected error for the monitor request. Status code: 500'' @
     [CHR 0x0A, CHR 0x0A] @ ''-------------------------------------------------------'' @ [CHR 0x0A] @
     [CHR 0x0A] @ ''Monitoring b...'' @ [CHR 0x0A, CHR 0x0A] @
     ''Server returned unexpected error for the monitor request. Status code: 500'' \<and>
   (\<exists>u v w. (case fst formatted_mixed of Inl report \<Rightarrow> report | Inr report \<Rightarrow> report) =
      u @ ''Monitoring b (my-image)'' @ v @
      ([CHR 0x0A] @ ''Monitoring a...'' @ [CHR 0x0A, CHR 0x0A] @
       ''Server returned unexpected error for the monitor request. Status code: 500'') @ w)"
proof -
  note T = formatter_appends_successes_then_failures[of example_collaborators example_store
      "[GoodResult ''Monitoring earlier (npm)'' ''earlier'' None]"
      "[spread_result monitored ''a'' 0, spread_result monitored ''b'' 2]"
      "[example_monitor_error, example_monitor_error_b]" example_options,
      folded formatted_mixed_def]
  from T[THEN conjunct1] have a: "snd formatted_mixed =
     [GoodResult ''Monitoring earlier (npm)'' ''earlier'' None,
      good_entry example_collaborators example_store example_options (spread_result monitored ''a'' 0),
      good_entry example_collaborators example_store example_options (spread_result monitored ''b'' 2),
      bad_entry example_collaborators example_monitor_error,
      bad_entry example_collaborators example_monitor_error_b]"
    by simp
  have g: "render example_collaborators
        (good_entry example_collaborators example_store example_options (spread_result monitored p r))
      = ''Monitoring '' @ p @ '' (my-image)''" for p r
    by (simp add: good_entry_def render_def example_collaborators_def spread_result_def
          monitored_def Let_def)
  have b: "render example_collaborators (bad_entry example_collaborators e)
      = [CHR 0x0A] @ ''Monitoring '' @ err_path e @ ''...'' @ [CHR 0x0A, CHR 0x0A] @
        ''Server returned unexpected error for the monitor request. Status code: 500''" for e
    by (simp add: bad_entry_def render_def example_collaborators_def Let_def)
  have e: "render example_collaborators (GoodResult ''Monitoring earlier (npm)'' ''earlier'' None)
      = ''Monitoring earlier (npm)''"
    by (simp add: render_def)
  from T[THEN conjunct2, THEN conjunct1]
  have c: "(case fst formatted_mixed of Inl report \<Rightarrow> report | Inr report \<Rightarrow> report) =
     ''Monitoring earlier (npm)'' @
     [CHR 0x0A, CHR 0x0A] @ ''-------------------------------------------------------'' @ [CHR 0x0A] @
     ''Monitoring a (my-image)'' @
     [CHR 0x0A, CHR 0x0A] @ ''-------------------------------------------------------'' @ [CHR 0x0A] @
     ''Monitoring b (my-image)'' @
     [CHR 0x0A, CHR 0x0A] @ ''-------------------------------------------------------'' @ [CHR 0x0A] @
     [CHR 0x0A] @ ''Monitoring a...'' @ [CHR 0x0A, CHR 0x0A] @
     ''Server returned unexpected error for the monitor request. Status code: 500'' @
     [CHR 0x0A, CHR 0x0A] @ ''-------------------------------------------------------'' @ [CHR 0x0A] @
     [CHR 0x0A] @ ''Monitoring b...'' @ [CHR 0x0A, CHR 0x0A] @
     ''Server returned unexpected error for the monitor request. Status code: 500''"
    by (simp add: g b e SEPARATOR_def example_monitor_error_def example_monitor_error_b_def)
  have ij: "1 < length [spread_result monitored ''a'' 0, spread_result monitored ''b'' 2] \<and>
            0 < length [example_monitor_error, example_monitor_error_b]"
    by simp
  from T[THEN conjunct2, THEN conjunct2, THEN conjunct2, THEN conjunct2, THEN conjunct1,
      rule_format, OF ij]
  have d: "\<exists>u v w. (case fst formatted_mixed of Inl report \<Rightarrow> report | Inr report \<Rightarrow> report) =
      u @ ''Monitoring b (my-image)'' @ v @
      ([CHR 0x0A] @ ''Monitoring a...'' @ [CHR 0x0A, CHR 0x0A] @
       ''Server returned unexpected error for the monitor request. Status code: 500'') @ w"
    by (simp add: g b example_monitor_error_def del: append_assoc)
  show ?thesis by (intro conjI) (rule a c d)+
qed

end
